theory Spec2Isabelle
  imports Main "HOL-Library.AList"
begin

section \<open>The bounded buffer\<close>

text \<open>
  Line numbers are those of the main script, the file that \<open>bootstrap.js\<close> loads.

  The class \<open>BoundedArray\<close> (lines 351-380): a maximum size, the array of items and the
  flag \<open>overflowed\<close>. The only constructor call of the program passes
  \<open>MEMORY_CONFIG.maxEventsBeforeFlush * 1.2\<close>, which is the whole number 6000, so the
  maximum size is a natural number here.
\<close>

record 'a BoundedArray =
  maxSize :: nat
  array :: "'a list"
  overflowed :: bool

definition BoundedArray_new :: "nat \<Rightarrow> 'a BoundedArray" where
  "BoundedArray_new n = \<lparr>maxSize = n, array = [], overflowed = False\<rparr>"

text \<open>
  \<open>push(item)\<close>: when the array is at capacity the oldest item is shifted out and the
  flag is set; the item is appended; the new length is returned. \<open>Array.shift\<close> on an
  empty array leaves it empty, as \<open>tl\<close> does.
\<close>

definition BoundedArray_push :: "'a \<Rightarrow> 'a BoundedArray \<Rightarrow> nat \<times> 'a BoundedArray" where
  "BoundedArray_push item b =
     (let b1 = (if maxSize b \<le> length (array b)
                then b\<lparr>array := tl (array b), overflowed := True\<rparr>
                else b);
          b2 = b1\<lparr>array := array b1 @ [item]\<rparr>
      in (length (array b2), b2))"

definition BoundedArray_length :: "'a BoundedArray \<Rightarrow> nat" where
  "BoundedArray_length b = length (array b)"

definition BoundedArray_getItems :: "'a BoundedArray \<Rightarrow> 'a list" where
  "BoundedArray_getItems b = array b"

definition BoundedArray_clear :: "'a BoundedArray \<Rightarrow> 'a BoundedArray" where
  "BoundedArray_clear b = b\<lparr>array := [], overflowed := False\<rparr>"

text \<open>
  A sequence of pushes, one after the other: the values the calls return, in order, and
  the buffer after the last call.
\<close>

fun push_all :: "'a list \<Rightarrow> 'a BoundedArray \<Rightarrow> nat list \<times> 'a BoundedArray" where
  "push_all [] b = ([], b)"
| "push_all (x # xs) b =
     (let (r, b1) = BoundedArray_push x b;
          (rs, b2) = push_all xs b1
      in (r # rs, b2))"

section \<open>Configuration, scopes and data\<close>

text \<open>
  \<open>MEMORY_CONFIG\<close> (lines 254-262). The capacity of a tab's network buffer is
  \<open>maxEventsBeforeFlush * 1.2\<close> (line 1577); in double arithmetic 5000 * 1.2 is 6000.
\<close>

record memory_config =
  maxEventsBeforeFlush :: nat
  maxLogsPerTabBeforeFlush :: nat
  autoFlushIntervalMs :: nat
  maxInactiveTimeMs :: nat
  useCompression :: bool
  batchSize :: nat
  useBufferedWrites :: bool

definition MEMORY_CONFIG :: memory_config where
  "MEMORY_CONFIG =
     \<lparr>maxEventsBeforeFlush = 5000, maxLogsPerTabBeforeFlush = 500,
      autoFlushIntervalMs = 60000, maxInactiveTimeMs = 3600000,
      useCompression = True, batchSize = 100, useBufferedWrites = True\<rparr>"

definition networkCapacity :: nat where
  "networkCapacity = maxEventsBeforeFlush MEMORY_CONFIG * 12 div 10"

text \<open>
  Where a name is declared decides which functions can read it. The file declares
  \<open>sessionDir\<close>, \<open>networkEvents\<close>, \<open>pages\<close>, \<open>requestUrlMaps\<close>, \<open>progressStats\<close> and
  \<open>tabUrlStats\<close> at module level (lines 246-276). \<open>flushStats\<close> (line 1563) and
  \<open>consoleLogs\<close> (line 1522) are \<open>const\<close> declarations inside the main function, the
  async arrow function that runs from line 1519 to line 2725. JavaScript resolves an
  identifier in the scopes that enclose the place where the function is written: a function
  written at module level does not see a \<open>const\<close> of the main function, and reading
  such an identifier raises ReferenceError.
\<close>

datatype scope = ModuleLevel | MainFunction

definition declared :: "string \<Rightarrow> scope option" where
  "declared name =
     (if name \<in> set [''sessionDir'', ''networkEvents'', ''pages'', ''requestUrlMaps'',
                      ''progressStats'', ''tabUrlStats'', ''MEMORY_CONFIG'']
      then Some ModuleLevel
      else if name \<in> set [''flushStats'', ''consoleLogs''] then Some MainFunction
      else None)"

definition in_scope :: "scope \<Rightarrow> string \<Rightarrow> bool" where
  "in_scope user name =
     (case declared name of
        None \<Rightarrow> False
      | Some ModuleLevel \<Rightarrow> True
      | Some MainFunction \<Rightarrow> user = MainFunction)"

type_synonym tabId = string

text \<open>
  A network entry is the object the request handler creates (lines 1851-1898) and the
  response handler later mutates (lines 1960-2015). The fields kept are the ones the
  handlers write after creation, and the identifying ones; the header lists, the cookie
  lists and the timing breakdown (floating-point shares of the duration) are left out.
  Entries live in a heap, an entry's address being its index: the buffer and the URL map
  hold references to the same object.
\<close>

record entry =
  requestId :: nat
  resourceType :: string
  pageref :: tabId
  requestMethod :: string
  requestUrl :: string
  timestampMs :: nat
  time :: nat
  responseStatus :: nat
  responseStatusText :: string
  responseMimeType :: string
  serverIPAddress :: string

text \<open>
  A value stored in a URL map: a reference to an entry, or \<open>undefined\<close>.
\<close>

datatype jsref = Undefined | Ref nat

text \<open>
  A tab's value in \<open>networkEvents\<close> is a \<open>BoundedArray\<close> (line 1575) or a plain array
  (line 1460). Both have \<open>length\<close>; only the plain array has indexed elements, \<open>slice\<close>
  and \<open>Array.isArray\<close>.
\<close>

datatype buffer = Bounded "nat BoundedArray" | Plain "nat list"

fun buffer_length :: "buffer \<Rightarrow> nat" where
  "buffer_length (Bounded b) = BoundedArray_length b"
| "buffer_length (Plain xs) = length xs"

fun buffer_push :: "nat \<Rightarrow> buffer \<Rightarrow> buffer" where
  "buffer_push a (Bounded b) = Bounded (snd (BoundedArray_push a b))"
| "buffer_push a (Plain xs) = Plain (xs @ [a])"

text \<open>\<open>tabEvents[tabEvents.length - 1]\<close> (line 1905).\<close>

fun buffer_last :: "buffer \<Rightarrow> jsref" where
  "buffer_last (Bounded b) = Undefined"
| "buffer_last (Plain xs) = (if xs = [] then Undefined else Ref (last xs))"

record consoleEntry =
  logTimestamp :: nat
  logType :: string
  logText :: string

record tabLogs =
  pageTitle :: string
  pageUrl :: string
  logs :: "consoleEntry list"
  lastActivity :: nat
  flushFiles :: "string list option"

record pageInfo =
  pageInfoId :: tabId
  title :: string
  url :: string
  startedDateTime :: nat
  networkFlushFiles :: "string list option"

record urlStat =
  urlCounts :: "string \<rightharpoonup> nat"
  primaryBaseUrl :: "string option"
  maxCount :: nat
  lastUrl :: string
  lastBaseUrl :: string

record progress_stats =
  networkEventsCount :: nat
  consoleLogsCount :: nat
  errorLogs :: nat
  warningLogs :: nat

record flush_stats =
  networkEventFlushes :: nat
  totalNetworkEventsFlushed :: nat
  perTabNetworkEventsFlushed :: "tabId \<rightharpoonup> nat"
  consoleLogFlushes :: nat
  totalConsoleLogsFlushed :: "tabId \<rightharpoonup> nat"
  lastFlushTime :: nat

subsection \<open>Documents\<close>

record entriesByType =
  log :: nat
  info :: nat
  warning :: nat
  error :: nat
  debug :: nat
  other :: nat

record harEntry =
  harResourceType :: string
  harMethod :: string
  harUrl :: string
  harStatus :: nat
  harStatusText :: string
  harMimeType :: string
  harServerIPAddress :: string
  harTime :: nat

record harPage =
  harPageStarted :: nat
  harPageId :: tabId
  harPageTitle :: string

record consoleDoc =
  docTimestamp :: nat
  docPageId :: tabId
  docPageTitle :: string
  docPageUrl :: string
  flushSequence :: "nat option"
  totalEntries :: nat
  docEntriesByType :: entriesByType
  docEntries :: "consoleEntry list"

record tabSummary =
  sumPageId :: tabId
  sumPageTitle :: string
  sumPageUrl :: string
  logCount :: nat

record limitedLogs =
  limPageTitle :: string
  limPageUrl :: string
  limLogs :: "consoleEntry list"
  limLogCount :: nat
  truncated :: bool

record combinedLogDoc =
  combTimestamp :: nat
  totalTabs :: nat
  tabs :: "tabSummary list"
  combTotalEntries :: nat
  tabLogsSample :: "(tabId \<times> limitedLogs) list"

record summaryDoc =
  sessionEndTime :: nat
  summaryTotalTabs :: nat
  totalNetworkEvents :: nat
  totalConsoleLogs :: nat
  totalErrorLogs :: nat
  totalWarningLogs :: nat
  networkFlushes :: nat
  consoleFlushes :: nat

text \<open>
  What is written to disk. \<open>JsonObject n\<close> stands for any other object with \<open>n\<close> keys:
  \<open>writeCompressedFile\<close> takes any data and looks only at its number of keys.
\<close>

datatype document =
    HarDoc "harPage list" "harEntry list"
  | ConsoleFlushDoc consoleDoc
  | ConsoleTabDoc consoleDoc
  | CombinedLogDoc combinedLogDoc
  | SummaryDoc summaryDoc
  | JsonObject nat

text \<open>\<open>Object.keys(data).length\<close> for each kind of document.\<close>

fun numKeys :: "document \<Rightarrow> nat" where
  "numKeys (HarDoc ps es) = 1"
| "numKeys (ConsoleFlushDoc d) = 8"
| "numKeys (ConsoleTabDoc d) = 7"
| "numKeys (CombinedLogDoc d) = 5"
| "numKeys (SummaryDoc d) = 9"
| "numKeys (JsonObject n) = n"

subsection \<open>The environment and the state\<close>

text \<open>
  The file system and the clock are inputs. \<open>writeFileOk p\<close>: a synchronous write to
  \<open>p\<close> succeeds; \<open>streamSetupOk p\<close>: opening the gzip stream to \<open>p\<close> does not throw;
  \<open>streamOk p\<close>: the stream to \<open>p\<close> finishes and emits no error; \<open>mkdirOk d\<close>: directory
  \<open>d\<close> can be created; \<open>dirExists d\<close>: \<open>fs.existsSync d\<close>. \<open>clock n\<close> is the
  result, in milliseconds, of the \<open>n\<close>-th reading of the clock that the model counts, and
  \<open>appDir\<close> is what \<open>getAppDir()\<close> returns.
\<close>

record io =
  writeFileOk :: "string \<Rightarrow> bool"
  streamSetupOk :: "string \<Rightarrow> bool"
  streamOk :: "string \<Rightarrow> bool"
  mkdirOk :: "string \<Rightarrow> bool"
  dirExists :: "string \<Rightarrow> bool"
  clock :: "nat \<Rightarrow> nat"
  appDir :: string

text \<open>
  The program's variables. \<open>networkEvents\<close>, \<open>pages\<close> and \<open>consoleLogs\<close> are iterated
  in insertion order, so they are association lists (\<open>AList.update\<close> keeps the place of
  a key that is present and appends a new one, as \<open>Map.set\<close> does). \<open>files\<close> is the
  file system's history: every document written, oldest first.
\<close>

record state =
  sessionDir :: "string option"
  networkEvents :: "(tabId \<times> buffer) list"
  pages :: "(tabId \<times> pageInfo) list"
  requestUrlMaps :: "tabId \<rightharpoonup> (string \<rightharpoonup> jsref)"
  heap :: "entry list"
  uniqueRequestId :: nat
  progressStats :: progress_stats
  flushStats :: flush_stats
  consoleLogs :: "(tabId \<times> tabLogs) list"
  tabUrlStats :: "tabId \<rightharpoonup> urlStat"
  files :: "(string \<times> document) list"
  clockReads :: nat

definition Date_now :: "io \<Rightarrow> state \<Rightarrow> nat \<times> state" where
  "Date_now env s = (clock env (clockReads s), s\<lparr>clockReads := Suc (clockReads s)\<rparr>)"

text \<open>
  \<open>toLocaleTimeString\<close> prints the time of day to the second.
\<close>

definition toLocaleTimeString :: "nat \<Rightarrow> nat" where
  "toLocaleTimeString ms = (ms div 1000) mod 86400"

subsection \<open>Strings and paths\<close>

definition path_join :: "string \<Rightarrow> string \<Rightarrow> string" where
  "path_join a b = a @ ''/'' @ b"

fun string_of_nat :: "nat \<Rightarrow> string" where
  "string_of_nat n =
     (if n < 10 then [char_of (48 + n)]
      else string_of_nat (n div 10) @ [char_of (48 + n mod 10)])"

declare string_of_nat.simps [simp del]

text \<open>
  \<open>getCleanFilenameFromUrl\<close> (lines 324-328): the characters
  \<open>\ / : * ? " < > |\<close> become underscores, the first 50 characters are kept and the
  first 6 of the tab id are appended.
\<close>

definition forbiddenChar :: "char \<Rightarrow> bool" where
  "forbiddenChar c \<longleftrightarrow>
     c \<in> set [char_of (92 :: nat), CHR ''/'', CHR '':'', CHR ''*'', CHR ''?'',
                char_of (34 :: nat), CHR ''<'', CHR ''>'', CHR ''|'']"

definition getCleanFilenameFromUrl :: "string \<Rightarrow> tabId \<Rightarrow> string" where
  "getCleanFilenameFromUrl baseUrl tabId =
     take 50 (map (\<lambda>c. if forbiddenChar c then CHR ''_'' else c) baseUrl)
     @ ''_'' @ take 6 tabId"

text \<open>\<open>replace(/[^a-z0-9]/gi, "_").substring(0, 30)\<close> (lines 1602 and 1025).\<close>

definition alnumChar :: "char \<Rightarrow> bool" where
  "alnumChar c \<longleftrightarrow>
     c \<in> set ''abcdefghijklmnopqrstuvwxyzABCDEFGHIJKLMNOPQRSTUVWXYZ0123456789''"

definition safeTitleOf :: "string \<Rightarrow> string" where
  "safeTitleOf t = take 30 (map (\<lambda>c. if alnumChar c then c else CHR ''_'') t)"


section \<open>Serializing and writing\<close>

text \<open>
  \<open>createHarFile(entries, pages)\<close> (lines 906-986). The first argument is used as it is
  when \<open>Array.isArray\<close> holds, flattened when it is a \<open>Map\<close>, and replaced by the
  empty array otherwise. The batches of \<open>MEMORY_CONFIG.batchSize\<close> entries are mapped and
  appended in order, which is the map over the whole array.
\<close>

datatype harInput = ArrayOf "entry list" | MapOf "entry list list" | OtherValue

definition cleanEntry :: "entry \<Rightarrow> harEntry" where
  "cleanEntry e =
     \<lparr>harResourceType = (if resourceType e = [] then ''other'' else resourceType e),
      harMethod = requestMethod e, harUrl = requestUrl e,
      harStatus = responseStatus e, harStatusText = responseStatusText e,
      harMimeType = responseMimeType e, harServerIPAddress = serverIPAddress e,
      harTime = time e\<rparr>"

definition harPageOf :: "pageInfo \<Rightarrow> harPage" where
  "harPageOf p =
     \<lparr>harPageStarted = startedDateTime p, harPageId = pageInfoId p, harPageTitle = title p\<rparr>"

definition createHarFile :: "harInput \<Rightarrow> pageInfo list \<Rightarrow> document" where
  "createHarFile entries pgs =
     (let eventsArray =
            (case entries of ArrayOf es \<Rightarrow> es | MapOf ess \<Rightarrow> concat ess | OtherValue \<Rightarrow> [])
      in HarDoc (map harPageOf pgs) (map cleanEntry eventsArray))"

text \<open>
  \<open>writeCompressedFile(filePath, data)\<close> (lines 1338-1392). The outcome lists the writes
  attempted, in order, and the path the promise resolves with (\<open>None\<close>: it rejects).
  With compression on and more than 10 keys the data goes through a gzip stream to
  \<open>filePath.gz\<close>; the stream's error handler tries one synchronous write to \<open>filePath\<close>
  and rejects when that fails too. Otherwise one synchronous write to \<open>filePath\<close> is made.
  An exception thrown inside the \<open>try\<close> (the synchronous write, or setting up the stream)
  leads to one write to \<open>filePath.backup\<close>, and the promise rejects when that fails.
\<close>

datatype strategy = GzipStream | SyncWrite | SyncFallback | BackupWrite

record write_outcome =
  attempts :: "(strategy \<times> string) list"
  result :: "string option"

definition backupWrite :: "io \<Rightarrow> string \<Rightarrow> (strategy \<times> string) list \<Rightarrow> write_outcome" where
  "backupWrite env filePath earlier =
     \<lparr>attempts = earlier @ [(BackupWrite, filePath @ ''.backup'')],
      result = (if writeFileOk env (filePath @ ''.backup'')
                then Some (filePath @ ''.backup'') else None)\<rparr>"

definition writeCompressedFile :: "io \<Rightarrow> string \<Rightarrow> document \<Rightarrow> write_outcome" where
  "writeCompressedFile env filePath data =
     (if useCompression MEMORY_CONFIG \<and> 10 < numKeys data then
        (let compressedPath = filePath @ ''.gz'' in
         if \<not> streamSetupOk env compressedPath
         then backupWrite env filePath [(GzipStream, compressedPath)]
         else if streamOk env compressedPath
         then \<lparr>attempts = [(GzipStream, compressedPath)], result = Some compressedPath\<rparr>
         else \<lparr>attempts = [(GzipStream, compressedPath), (SyncFallback, filePath)],
               result = (if writeFileOk env filePath then Some filePath else None)\<rparr>)
      else if writeFileOk env filePath
      then \<lparr>attempts = [(SyncWrite, filePath)], result = Some filePath\<rparr>
      else backupWrite env filePath [(SyncWrite, filePath)])"

text \<open>The effect of a write on the file system's history.\<close>

definition writeTo :: "io \<Rightarrow> string \<Rightarrow> document \<Rightarrow> state \<Rightarrow> state" where
  "writeTo env filePath data s =
     (case result (writeCompressedFile env filePath data) of
        None \<Rightarrow> s
      | Some p \<Rightarrow> s\<lparr>files := files s @ [(p, data)]\<rparr>)"

text \<open>An environment in which every operation on the file system succeeds.\<close>

definition goodDisk :: io where
  "goodDisk =
     \<lparr>writeFileOk = (\<lambda>p. True), streamSetupOk = (\<lambda>p. True), streamOk = (\<lambda>p. True),
      mkdirOk = (\<lambda>p. True), dirExists = (\<lambda>p. True), clock = (\<lambda>n. 1000 * n),
      appDir = ''/app''\<rparr>"

text \<open>
  An environment in which gzip streams fail and only names ending in \<open>.backup\<close> can be
  written.
\<close>

definition backupOnlyDisk :: io where
  "backupOnlyDisk =
     \<lparr>writeFileOk = (\<lambda>p. p = ''out.json.backup''), streamSetupOk = (\<lambda>p. True),
      streamOk = (\<lambda>p. False), mkdirOk = (\<lambda>p. True), dirExists = (\<lambda>p. True),
      clock = (\<lambda>n. 1000 * n), appDir = ''/app''\<rparr>"


section \<open>Ingestion\<close>

text \<open>\<open>sessionDir\<close> is \<open>undefined\<close> until the main function sets it; \<open>!sessionDir\<close> also holds
  for the empty string.\<close>

definition sessionDirSet :: "state \<Rightarrow> bool" where
  "sessionDirSet s = (case sessionDir s of None \<Rightarrow> False | Some d \<Rightarrow> d \<noteq> [])"

text \<open>
  \<open>trackTabBaseUrl(tabId, url)\<close> (lines 288-321). The host name of the URL, which
  \<open>extractBaseUrl\<close> obtains from the URL parser, is given with the URL.
\<close>

definition trackTabBaseUrl :: "tabId \<Rightarrow> string \<Rightarrow> string \<Rightarrow> state \<Rightarrow> state" where
  "trackTabBaseUrl tabId u baseUrl s =
     (if u = [] \<or> u = ''about:blank'' then s
      else
        let st0 = (case tabUrlStats s tabId of
                     None \<Rightarrow> \<lparr>urlCounts = Map.empty, primaryBaseUrl = None, maxCount = 0,
                               lastUrl = u, lastBaseUrl = baseUrl\<rparr>
                   | Some st \<Rightarrow> st);
            c = (case urlCounts st0 baseUrl of
                   None \<Rightarrow> 1
                 | Some n \<Rightarrow> (if n = 0 then 1 else n + 1));
            st1 = st0\<lparr>urlCounts := (urlCounts st0)(baseUrl \<mapsto> c)\<rparr>;
            st2 = (if maxCount st1 < c
                   then st1\<lparr>maxCount := c, primaryBaseUrl := Some baseUrl\<rparr>
                   else st1);
            st3 = st2\<lparr>lastUrl := u, lastBaseUrl := baseUrl\<rparr>
        in s\<lparr>tabUrlStats := (tabUrlStats s)(tabId \<mapsto> st3)\<rparr>)"

text \<open>The base URL a flush or a final file is named after (lines 1417-1422, 1243-1250).\<close>

definition baseUrlOf :: "state \<Rightarrow> tabId \<Rightarrow> string" where
  "baseUrlOf s tabId =
     (case tabUrlStats s tabId of
        None \<Rightarrow> ''unknown-domain''
      | Some st \<Rightarrow>
          (case primaryBaseUrl st of
             Some p \<Rightarrow>
               (if p \<noteq> [] then p
                else if lastBaseUrl st \<noteq> [] then lastBaseUrl st else ''unknown-domain'')
           | None \<Rightarrow> (if lastBaseUrl st \<noteq> [] then lastBaseUrl st else ''unknown-domain'')))"

text \<open>\<open>counts[tabId] || 0\<close>.\<close>

definition orZero :: "nat option \<Rightarrow> nat" where
  "orZero c = (case c of None \<Rightarrow> 0 | Some n \<Rightarrow> n)"

text \<open>\<open>pages.get(tabId) || {id: tabId, title: "Unknown Tab", ...}\<close>.\<close>

definition tabInfoOf :: "io \<Rightarrow> state \<Rightarrow> tabId \<Rightarrow> pageInfo" where
  "tabInfoOf env s tabId =
     (case map_of (pages s) tabId of
        Some p \<Rightarrow> p
      | None \<Rightarrow> \<lparr>pageInfoId = tabId, title = ''Unknown Tab'', url = ''unknown'',
                  startedDateTime = clock env (clockReads s), networkFlushFiles = None\<rparr>)"

text \<open>The entries a buffer passes to \<open>createHarFile\<close>: a \<open>BoundedArray\<close> is neither an
  array nor a \<open>Map\<close>.\<close>

definition deref :: "state \<Rightarrow> nat list \<Rightarrow> entry list" where
  "deref s as = map (\<lambda>a. heap s ! a) (filter (\<lambda>a. a < length (heap s)) as)"

fun harInputOf :: "state \<Rightarrow> buffer \<Rightarrow> harInput" where
  "harInputOf s (Plain xs) = ArrayOf (deref s xs)"
| "harInputOf s (Bounded b) = OtherValue"

text \<open>
  \<open>flushNetworkEventsForTab(tabId, forceSave)\<close> (lines 1395-1478), written at module
  level. It returns at once without a session directory or a buffer for the tab, and
  below the threshold unless forced. Then it creates the flush directory and, at line
  1434, reads \<open>flushStats\<close>, a name that is not in scope in a function written at module
  level: the read raises ReferenceError. Every exception, from \<open>mkdirSync\<close>, from that
  read or from the awaited write, is caught at line 1470, where only a message is
  printed. The rest of the body is written out as well: after a write that succeeded
  the counters are updated, the tab's buffer is replaced by a new empty plain array
  (line 1460) and the file's path is added to the tab's page information. The date of a
  page that is not in \<open>pages\<close> is read from the clock without counting the reading.
\<close>

definition flushNetworkEventsForTab :: "io \<Rightarrow> tabId \<Rightarrow> bool \<Rightarrow> state \<Rightarrow> state" where
  "flushNetworkEventsForTab env tabId forceSave s =
     (case map_of (networkEvents s) tabId of
        None \<Rightarrow> s
      | Some tabEvents \<Rightarrow>
          if \<not> sessionDirSet s then s
          else if buffer_length tabEvents < maxEventsBeforeFlush MEMORY_CONFIG \<and> \<not> forceSave
          then s
          else
            let tabInfo = tabInfoOf env s tabId;
                cleanBaseUrl = getCleanFilenameFromUrl (baseUrlOf s tabId) tabId;
                flushDir = path_join (the (sessionDir s)) ''network_flushes''
            in
            if \<not> (dirExists env flushDir \<or> mkdirOk env flushDir) then s
            else if \<not> in_scope ModuleLevel ''flushStats'' then s
            else
              let tabFlushCount = orZero (perTabNetworkEventsFlushed (flushStats s) tabId);
                  flushFilePath =
                    path_join flushDir
                      (cleanBaseUrl @ ''_flush_'' @ string_of_nat (tabFlushCount + 1) @ ''.har'');
                  harData = createHarFile (harInputOf s tabEvents) [tabInfo]
              in
              (case result (writeCompressedFile env flushFilePath harData) of
                 None \<Rightarrow> s
               | Some written \<Rightarrow>
                   s\<lparr>files := files s @ [(written, harData)],
                     flushStats := (flushStats s)
                       \<lparr>perTabNetworkEventsFlushed :=
                          (perTabNetworkEventsFlushed (flushStats s))(tabId \<mapsto> tabFlushCount + 1),
                        totalNetworkEventsFlushed :=
                          totalNetworkEventsFlushed (flushStats s) + buffer_length tabEvents,
                        networkEventFlushes := networkEventFlushes (flushStats s) + 1,
                        lastFlushTime := clock env (clockReads s)\<rparr>,
                     clockReads := Suc (clockReads s),
                     networkEvents := AList.update tabId (Plain []) (networkEvents s),
                     pages :=
                       (case map_of (pages s) tabId of
                          None \<Rightarrow> pages s
                        | Some p \<Rightarrow>
                            AList.update tabId
                              (p\<lparr>networkFlushFiles :=
                                   Some ((case networkFlushFiles p of None \<Rightarrow> [] | Some fs \<Rightarrow> fs)
                                         @ [flushFilePath])\<rparr>)
                              (pages s))\<rparr>))"

text \<open>\<open>initTabNetworkEvents(tabId)\<close> (lines 1573-1581).\<close>

definition initTabNetworkEvents :: "tabId \<Rightarrow> state \<Rightarrow> state" where
  "initTabNetworkEvents tabId s =
     (case map_of (networkEvents s) tabId of
        None \<Rightarrow>
          s\<lparr>networkEvents :=
              AList.update tabId (Bounded (BoundedArray_new networkCapacity)) (networkEvents s)\<rparr>
      | Some b \<Rightarrow> s)"

text \<open>
  The request handler (lines 1813-1931). The event gives the tab, the request and, when
  the request's frame is the main frame, the frame's URL with its host name. The new
  entry is pushed to the tab's buffer; the URL map of the tab then stores
  \<open>tabEvents[tabEvents.length - 1]\<close> under the request's URL; every \<open>batchSize\<close>-th
  request overall checks the buffer against the threshold and starts a flush.
\<close>

record requestEvent =
  reqPageId :: tabId
  reqUrl :: string
  reqMethod :: string
  reqResourceType :: string
  reqFrame :: "(string \<times> string) option"

definition newEntry :: "requestEvent \<Rightarrow> nat \<Rightarrow> nat \<Rightarrow> entry" where
  "newEntry ev rid now =
     \<lparr>requestId = rid, resourceType = reqResourceType ev, pageref = reqPageId ev,
      requestMethod = reqMethod ev, requestUrl = reqUrl ev, timestampMs = now, time = 0,
      responseStatus = 0, responseStatusText = [], responseMimeType = [],
      serverIPAddress = []\<rparr>"

definition onRequest :: "io \<Rightarrow> requestEvent \<Rightarrow> state \<Rightarrow> state" where
  "onRequest env ev s =
     (let pageId = reqPageId ev;
          s1 = (case reqFrame ev of
                  None \<Rightarrow> s
                | Some (u, host) \<Rightarrow> trackTabBaseUrl pageId u host s);
          s2 = s1\<lparr>uniqueRequestId := uniqueRequestId s1 + 1\<rparr>;
          s3 = initTabNetworkEvents pageId s2;
          (now, s4) = Date_now env s3;
          a = length (heap s4);
          tabEvents = buffer_push a (the (map_of (networkEvents s4) pageId));
          urlMap = (case requestUrlMaps s4 pageId of None \<Rightarrow> Map.empty | Some m \<Rightarrow> m);
          s5 = s4\<lparr>heap := heap s4 @ [newEntry ev (uniqueRequestId s4) now],
                  networkEvents := AList.update pageId tabEvents (networkEvents s4),
                  requestUrlMaps :=
                    (requestUrlMaps s4)(pageId \<mapsto> urlMap(reqUrl ev \<mapsto> buffer_last tabEvents)),
                  progressStats := (progressStats s4)
                    \<lparr>networkEventsCount := networkEventsCount (progressStats s4) + 1\<rparr>\<rparr>
      in if networkEventsCount (progressStats s5) mod batchSize MEMORY_CONFIG = 0
            \<and> maxEventsBeforeFlush MEMORY_CONFIG \<le> buffer_length tabEvents
         then flushNetworkEventsForTab env pageId False s5
         else s5)"

text \<open>
  The response handler (lines 1934-2019). Without a buffer for the tab it returns. The
  entry is looked up under the URL in the tab's map; when the value found is an object
  the entry is completed and the URL is deleted from the map; otherwise nothing is done.
  The whole body is inside \<open>try\<close> with an empty \<open>catch\<close>.
\<close>

record responseEvent =
  respPageId :: tabId
  respUrl :: string
  respStatus :: nat
  respStatusText :: string
  respContentType :: string
  respRemoteIp :: "string option"

definition lookupEntry :: "state \<Rightarrow> tabId \<Rightarrow> string \<Rightarrow> jsref" where
  "lookupEntry s pageId u =
     (case requestUrlMaps s pageId of
        None \<Rightarrow> Undefined
      | Some urlMap \<Rightarrow> (case urlMap u of None \<Rightarrow> Undefined | Some r \<Rightarrow> r))"

definition completeEntry :: "responseEvent \<Rightarrow> nat \<Rightarrow> entry \<Rightarrow> entry" where
  "completeEntry ev now e =
     e\<lparr>time := now - timestampMs e,
       responseStatus := respStatus ev,
       responseStatusText := respStatusText ev,
       responseMimeType := respContentType ev,
       serverIPAddress :=
         (case respRemoteIp ev of
            None \<Rightarrow> serverIPAddress e
          | Some ip \<Rightarrow> (if ip = [] then serverIPAddress e else ip))\<rparr>"

definition onResponse :: "io \<Rightarrow> responseEvent \<Rightarrow> state \<Rightarrow> state" where
  "onResponse env ev s =
     (case map_of (networkEvents s) (respPageId ev) of
        None \<Rightarrow> s
      | Some tabEvents \<Rightarrow>
          (case lookupEntry s (respPageId ev) (respUrl ev) of
             Undefined \<Rightarrow> s
           | Ref a \<Rightarrow>
               let (now, s1) = Date_now env s;
                   urlMap = the (requestUrlMaps s1 (respPageId ev))
               in s1\<lparr>heap := (heap s1)[a := completeEntry ev now (heap s1 ! a)],
                     requestUrlMaps :=
                       (requestUrlMaps s1)(respPageId ev \<mapsto> urlMap(respUrl ev := None))\<rparr>))"

section \<open>Console records and their flush\<close>

text \<open>
  The count by type (lines 1619-1635 and 1033-1050): the object starts with the six keys
  at 0; a record whose type is one of the keys increments that key (\<open>hasOwnProperty\<close>),
  any other record increments \<open>other\<close>.
\<close>

definition noEntries :: entriesByType where
  "noEntries = \<lparr>log = 0, info = 0, warning = 0, error = 0, debug = 0, other = 0\<rparr>"

definition countType :: "entriesByType \<Rightarrow> string \<Rightarrow> entriesByType" where
  "countType c t =
     (if t = ''log'' then c\<lparr>log := log c + 1\<rparr>
      else if t = ''info'' then c\<lparr>info := info c + 1\<rparr>
      else if t = ''warning'' then c\<lparr>warning := warning c + 1\<rparr>
      else if t = ''error'' then c\<lparr>error := error c + 1\<rparr>
      else if t = ''debug'' then c\<lparr>debug := debug c + 1\<rparr>
      else if t = ''other'' then c\<lparr>other := other c + 1\<rparr>
      else c\<lparr>other := other c + 1\<rparr>)"

definition countEntries :: "consoleEntry list \<Rightarrow> entriesByType" where
  "countEntries ls = foldl (\<lambda>c e. countType c (logType e)) noEntries ls"

text \<open>
  \<open>flushConsoleLogsForTab(tabId, forceSave)\<close> (lines 1584-1684), written inside the main
  function. The sequence number of a flush file is the number of the tab's records
  flushed so far plus one (line 1611). The document is written with one synchronous
  write; an exception is caught at line 1676, where only a message is printed.
\<close>

definition consoleFlushPath :: "string \<Rightarrow> tabLogs \<Rightarrow> tabId \<Rightarrow> nat \<Rightarrow> string" where
  "consoleFlushPath dir tabLogs0 tabId tabFlushCount =
     path_join (path_join dir ''console_flushes'')
       (''console_''
        @ safeTitleOf (if pageTitle tabLogs0 \<noteq> [] then pageTitle tabLogs0 else ''Tab_'' @ take 6 tabId)
        @ ''_'' @ take 6 tabId @ ''_flush_'' @ string_of_nat (tabFlushCount + 1) @ ''.json'')"

definition flushConsoleLogsForTab :: "io \<Rightarrow> tabId \<Rightarrow> bool \<Rightarrow> state \<Rightarrow> state" where
  "flushConsoleLogsForTab env tabId forceSave s =
     (case map_of (consoleLogs s) tabId of
        None \<Rightarrow> s
      | Some tabLogs0 \<Rightarrow>
          if \<not> sessionDirSet s then s
          else if length (logs tabLogs0) < maxLogsPerTabBeforeFlush MEMORY_CONFIG \<and> \<not> forceSave
          then s
          else
            let flushDir = path_join (the (sessionDir s)) ''console_flushes'' in
            if \<not> (dirExists env flushDir \<or> mkdirOk env flushDir) then s
            else if \<not> in_scope MainFunction ''flushStats'' then s
            else
              let tabFlushCount = orZero (totalConsoleLogsFlushed (flushStats s) tabId);
                  flushFilePath = consoleFlushPath (the (sessionDir s)) tabLogs0 tabId tabFlushCount;
                  (now, s1) = Date_now env s;
                  formattedLogs =
                    \<lparr>docTimestamp = toLocaleTimeString now, docPageId = tabId,
                     docPageTitle = pageTitle tabLogs0, docPageUrl = pageUrl tabLogs0,
                     flushSequence = Some (tabFlushCount + 1),
                     totalEntries = length (logs tabLogs0),
                     docEntriesByType = countEntries (logs tabLogs0),
                     docEntries = logs tabLogs0\<rparr>
              in
              if \<not> writeFileOk env flushFilePath then s1
              else
                let (flushed, s2) = Date_now env s1 in
                s2\<lparr>files := files s2 @ [(flushFilePath, ConsoleFlushDoc formattedLogs)],
                   flushStats := (flushStats s2)
                     \<lparr>totalConsoleLogsFlushed :=
                        (totalConsoleLogsFlushed (flushStats s2))
                          (tabId \<mapsto> tabFlushCount + length (logs tabLogs0)),
                      consoleLogFlushes := consoleLogFlushes (flushStats s2) + 1,
                      lastFlushTime := flushed\<rparr>,
                   consoleLogs :=
                     AList.update tabId
                       (tabLogs0\<lparr>logs := [],
                           flushFiles :=
                             Some ((case flushFiles tabLogs0 of None \<Rightarrow> [] | Some fs \<Rightarrow> fs)
                                   @ [flushFilePath])\<rparr>)
                       (consoleLogs s2)\<rparr>)"

text \<open>
  The condition under which the flush reaches its write and the write succeeds.
\<close>

definition consoleFlushWrites :: "io \<Rightarrow> tabId \<Rightarrow> bool \<Rightarrow> state \<Rightarrow> bool" where
  "consoleFlushWrites env tabId forceSave s =
     (case map_of (consoleLogs s) tabId of
        None \<Rightarrow> False
      | Some tabLogs0 \<Rightarrow>
          sessionDirSet s
          \<and> (maxLogsPerTabBeforeFlush MEMORY_CONFIG \<le> length (logs tabLogs0) \<or> forceSave)
          \<and> (dirExists env (path_join (the (sessionDir s)) ''console_flushes'')
               \<or> mkdirOk env (path_join (the (sessionDir s)) ''console_flushes''))
          \<and> writeFileOk env
                (consoleFlushPath (the (sessionDir s)) tabLogs0 tabId
                   (orZero (totalConsoleLogsFlushed (flushStats s) tabId))))"

text \<open>
  The console handler (lines 2022-2138). The event gives the message and what the page
  answers when asked for its URL and title (\<open>None\<close> when the page does not answer);
  \<open>conTitle\<close> and \<open>conUrl\<close> are the handler's own copies of title and URL.
\<close>

record consoleEvent =
  conPageId :: tabId
  conType :: string
  conText :: string
  conTitle :: string
  conUrl :: string
  conCurrent :: "(string \<times> string) option"

definition refreshPageInfo :: "consoleEvent \<Rightarrow> state \<Rightarrow> state" where
  "refreshPageInfo ev s =
     (case conCurrent ev of
        None \<Rightarrow> s
      | Some (currentUrl, currentTitle) \<Rightarrow>
          (case map_of (consoleLogs s) (conPageId ev) of
             None \<Rightarrow> s
           | Some tabLogs0 \<Rightarrow>
               let tabLogs1 = (if currentTitle \<noteq> conTitle ev
                          then tabLogs0\<lparr>pageTitle := currentTitle\<rparr> else tabLogs0);
                   tabLogs2 = (if currentUrl \<noteq> conUrl ev
                          then tabLogs1\<lparr>pageUrl := currentUrl\<rparr> else tabLogs1)
               in s\<lparr>consoleLogs := AList.update (conPageId ev) tabLogs2 (consoleLogs s)\<rparr>))"

definition onConsole :: "io \<Rightarrow> consoleEvent \<Rightarrow> state \<Rightarrow> state" where
  "onConsole env ev s =
     (let safePageId = (if conPageId ev = [] then ''unknown'' else conPageId ev);
          (stamp, s1) = Date_now env s;
          ps = progressStats s1;
          s2 = s1\<lparr>progressStats := ps
                 \<lparr>consoleLogsCount := consoleLogsCount ps + 1,
                  errorLogs := (if conType ev = ''error'' then errorLogs ps + 1 else errorLogs ps),
                  warningLogs :=
                    (if conType ev = ''warning'' then warningLogs ps + 1 else warningLogs ps)\<rparr>\<rparr>;
          s3 = refreshPageInfo ev s2;
          currentPageUrl = (case conCurrent ev of None \<Rightarrow> conUrl ev | Some (u, t) \<Rightarrow> u);
          (active, s4) = Date_now env s3;
          tabLogs0 = (case map_of (consoleLogs s4) safePageId of
                  None \<Rightarrow>
                    \<lparr>pageTitle = (if conTitle ev = [] then ''Unknown Tab'' else conTitle ev),
                     pageUrl = (if currentPageUrl = [] then ''unknown'' else currentPageUrl),
                     logs = [], lastActivity = active, flushFiles = None\<rparr>
                | Some old \<Rightarrow> old\<lparr>lastActivity := active\<rparr>);
          tabLogs1 = tabLogs0\<lparr>logs := logs tabLogs0
                  @ [\<lparr>logTimestamp = toLocaleTimeString stamp, logType = conType ev,
                      logText = conText ev\<rparr>]\<rparr>;
          s5 = s4\<lparr>consoleLogs := AList.update safePageId tabLogs1 (consoleLogs s4)\<rparr>
      in if maxLogsPerTabBeforeFlush MEMORY_CONFIG \<le> length (logs tabLogs1)
         then flushConsoleLogsForTab env safePageId False s5
         else s5)"

text \<open>The \<open>pageerror\<close> handler (lines 2141-2166).\<close>

definition onPageError :: "io \<Rightarrow> tabId \<Rightarrow> string \<Rightarrow> string \<Rightarrow> string \<Rightarrow> state \<Rightarrow> state" where
  "onPageError env pageId pgTitle pgUrl message s =
     (let (active, s1) = Date_now env s;
          (stamp, s2) = Date_now env s1;
          tabLogs0 = (case map_of (consoleLogs s2) pageId of
                  None \<Rightarrow>
                    \<lparr>pageTitle = (if pgTitle = [] then ''Unknown'' else pgTitle),
                     pageUrl = (if pgUrl = [] then ''unknown'' else pgUrl),
                     logs = [], lastActivity = active, flushFiles = None\<rparr>
                | Some old \<Rightarrow> old\<lparr>lastActivity := active\<rparr>);
          tabLogs1 = tabLogs0\<lparr>logs := logs tabLogs0
                  @ [\<lparr>logTimestamp = toLocaleTimeString stamp, logType = ''pageerror'',
                      logText = message\<rparr>]\<rparr>;
          ps = progressStats s2
      in s2\<lparr>consoleLogs := AList.update pageId tabLogs1 (consoleLogs s2),
            progressStats := ps\<lparr>consoleLogsCount := consoleLogsCount ps + 1,
                                errorLogs := errorLogs ps + 1\<rparr>\<rparr>)"

text \<open>
  Setting a page up for monitoring (lines 1740-1779): its URL is tracked, its console
  record is created empty, its network buffer is created when missing, and the page is
  added to \<open>pages\<close>. \<open>host\<close> is the host name of the URL.
\<close>

definition setupPage :: "io \<Rightarrow> tabId \<Rightarrow> string \<Rightarrow> string \<Rightarrow> string \<Rightarrow> state \<Rightarrow> state" where
  "setupPage env pageId pgUrl host pgTitle s =
     (let s1 = trackTabBaseUrl pageId pgUrl host s;
          (active, s2) = Date_now env s1;
          s3 = s2\<lparr>consoleLogs :=
                   AList.update pageId
                     \<lparr>pageTitle = pgTitle, pageUrl = pgUrl, logs = [],
                      lastActivity = active, flushFiles = None\<rparr>
                     (consoleLogs s2)\<rparr>;
          s4 = initTabNetworkEvents pageId s3;
          (started, s5) = Date_now env s4
      in s5\<lparr>pages :=
              AList.update pageId
                \<lparr>pageInfoId = pageId, title = pgTitle, url = pgUrl,
                 startedDateTime = started, networkFlushFiles = None\<rparr>
                (pages s5)\<rparr>)"

text \<open>
  \<open>performMemoryCheck(force)\<close> (lines 1687-1708): every tab's network buffer at or over
  the threshold, or every one when forced, is flushed; then the same for the console
  records. The function goes on to print the memory usage.
\<close>

definition checkNetworkTab :: "io \<Rightarrow> bool \<Rightarrow> tabId \<Rightarrow> state \<Rightarrow> state" where
  "checkNetworkTab env force tabId s =
     (case map_of (networkEvents s) tabId of
        None \<Rightarrow> s
      | Some tabEvents \<Rightarrow>
          if maxEventsBeforeFlush MEMORY_CONFIG \<le> buffer_length tabEvents \<or> force
          then flushNetworkEventsForTab env tabId force s
          else s)"

definition checkConsoleTab :: "io \<Rightarrow> bool \<Rightarrow> tabId \<Rightarrow> state \<Rightarrow> state" where
  "checkConsoleTab env force tabId s =
     (case map_of (consoleLogs s) tabId of
        None \<Rightarrow> s
      | Some tabData \<Rightarrow>
          if maxLogsPerTabBeforeFlush MEMORY_CONFIG \<le> length (logs tabData) \<or> force
          then flushConsoleLogsForTab env tabId force s
          else s)"

definition performMemoryCheck :: "io \<Rightarrow> bool \<Rightarrow> state \<Rightarrow> state" where
  "performMemoryCheck env force s =
     (let s1 = fold (checkNetworkTab env force) (map fst (networkEvents s)) s
      in fold (checkConsoleTab env force) (map fst (consoleLogs s1)) s1)"

section \<open>The final documents\<close>

text \<open>
  \<open>saveFinalHarFiles()\<close> (lines 1212-1335): one archive per tab whose buffer is not
  empty, then the combined archive \<open>network_all.har\<close> of all tabs' events. The combined
  archive takes the items of a plain array and of a \<open>BoundedArray\<close> alike (lines
  1282-1305); the archive of one tab passes the buffer itself to \<open>createHarFile\<close>. A
  rejected write only prints a message.
\<close>

definition saveTabHar :: "io \<Rightarrow> string \<Rightarrow> tabId \<times> buffer \<Rightarrow> state \<Rightarrow> state" where
  "saveTabHar env harDir tb s =
     (let tabId = fst tb; tabEvents = snd tb in
      if buffer_length tabEvents = 0 then s
      else
        let tabInfo = tabInfoOf env s tabId;
            cleanBaseUrl = getCleanFilenameFromUrl (baseUrlOf s tabId) tabId;
            harFilePath = path_join harDir (cleanBaseUrl @ ''.har'');
            harData = createHarFile (harInputOf s tabEvents) [tabInfo]
        in writeTo env harFilePath harData s)"

fun bufferItems :: "buffer \<Rightarrow> nat list" where
  "bufferItems (Plain xs) = xs"
| "bufferItems (Bounded b) = array b"

definition saveFinalHarFiles :: "io \<Rightarrow> state \<Rightarrow> state" where
  "saveFinalHarFiles env s =
     (case sessionDir s of
        None \<Rightarrow> s
      | Some dir \<Rightarrow>
          let harDir0 = path_join dir ''final_har_files'';
              harDir = (if dirExists env harDir0 \<or> mkdirOk env harDir0 then harDir0 else dir);
              s1 = fold (saveTabHar env harDir) (networkEvents s) s;
              allEvents = concat (map (\<lambda>tb. bufferItems (snd tb)) (networkEvents s1));
              combinedHarData = createHarFile (ArrayOf (deref s1 allEvents)) (map snd (pages s1))
          in writeTo env (path_join dir ''network_all.har'') combinedHarData s1)"

text \<open>
  \<open>saveAllConsoleLogs(sessionDir, allTabsLogs)\<close> (lines 989-1140): one document per tab
  that has records, then the combined document \<open>console_all.json\<close> with the first 100
  records of every tab.
\<close>

definition consoleLogsDir :: "io \<Rightarrow> string \<Rightarrow> (tabId \<times> tabLogs) list \<Rightarrow> string" where
  "consoleLogsDir env dir allTabsLogs =
     (let consoleDir = path_join dir ''console_logs'' in
      if 1 < length allTabsLogs \<and> \<not> dirExists env consoleDir
      then (if mkdirOk env consoleDir then consoleDir else dir)
      else (if dirExists env consoleDir then consoleDir else dir))"

definition saveTabLogs :: "io \<Rightarrow> string \<Rightarrow> nat \<Rightarrow> tabId \<times> tabLogs \<Rightarrow> state \<Rightarrow> state" where
  "saveTabLogs env logsDir index pt s =
     (let pageId = fst pt; tabData = snd pt in
      if logs tabData = [] then s
      else
        let safeTitle = safeTitleOf (if pageTitle tabData \<noteq> [] then pageTitle tabData
                                     else ''Tab'' @ string_of_nat (index + 1));
            tabLogFilePath =
              path_join logsDir (''console_'' @ safeTitle @ ''_'' @ take 6 pageId @ ''.json'');
            (now, s1) = Date_now env s;
            formattedLogs =
              \<lparr>docTimestamp = toLocaleTimeString now, docPageId = pageId,
               docPageTitle = pageTitle tabData, docPageUrl = pageUrl tabData,
               flushSequence = None, totalEntries = length (logs tabData),
               docEntriesByType = countEntries (logs tabData),
               docEntries = logs tabData\<rparr>
        in writeTo env tabLogFilePath (ConsoleTabDoc formattedLogs) s1)"

fun saveEachTabLogs ::
  "io \<Rightarrow> string \<Rightarrow> nat \<Rightarrow> (tabId \<times> tabLogs) list \<Rightarrow> state \<Rightarrow> state" where
  "saveEachTabLogs env logsDir index [] s = s"
| "saveEachTabLogs env logsDir index (pt # rest) s =
     saveEachTabLogs env logsDir (index + 1) rest (saveTabLogs env logsDir index pt s)"

definition tabSummaryOf :: "tabId \<times> tabLogs \<Rightarrow> tabSummary" where
  "tabSummaryOf pt =
     \<lparr>sumPageId = fst pt, sumPageTitle = pageTitle (snd pt), sumPageUrl = pageUrl (snd pt),
      logCount = length (logs (snd pt))\<rparr>"

definition limitedLogsOf :: "tabLogs \<Rightarrow> limitedLogs" where
  "limitedLogsOf d =
     \<lparr>limPageTitle = pageTitle d, limPageUrl = pageUrl d, limLogs = take 100 (logs d),
      limLogCount = length (logs d), truncated = (100 < length (logs d))\<rparr>"

definition saveAllConsoleLogs ::
  "io \<Rightarrow> string \<Rightarrow> (tabId \<times> tabLogs) list \<Rightarrow> state \<Rightarrow> state" where
  "saveAllConsoleLogs env dir allTabsLogs s =
     (let logsDir = consoleLogsDir env dir allTabsLogs;
          s1 = saveEachTabLogs env logsDir 0 allTabsLogs s;
          withLogs = filter (\<lambda>pt. logs (snd pt) \<noteq> []) allTabsLogs;
          (now, s2) = Date_now env s1;
          combinedLogData =
            \<lparr>combTimestamp = toLocaleTimeString now, totalTabs = length withLogs,
             tabs = map tabSummaryOf withLogs,
             combTotalEntries = sum_list (map (\<lambda>pt. length (logs (snd pt))) withLogs),
             tabLogsSample = map (\<lambda>pt. (fst pt, limitedLogsOf (snd pt))) allTabsLogs\<rparr>
      in writeTo env (path_join dir ''console_all.json'') (CombinedLogDoc combinedLogData) s2)"

text \<open>
  The handler of \<open>disconnected\<close> (lines 2556-2660). A session directory that does not
  exist is replaced by an emergency directory, or by the application directory when
  that cannot be created. Then, each step in its own \<open>try\<close>: the forced flush of
  everything, the final archives, the final console documents, and the summary
  \<open>recording_summary.json\<close>.
\<close>

definition ensureSessionDir :: "io \<Rightarrow> state \<Rightarrow> state" where
  "ensureSessionDir env s =
     (if (case sessionDir s of None \<Rightarrow> False | Some d \<Rightarrow> dirExists env d) then s
      else
        let (now, s1) = Date_now env s;
            emergencyDir =
              path_join (appDir env) (''emergency_'' @ string_of_nat (toLocaleTimeString now))
        in if mkdirOk env emergencyDir then s1\<lparr>sessionDir := Some emergencyDir\<rparr>
           else s1\<lparr>sessionDir := Some (appDir env)\<rparr>)"

definition summaryPath :: "state \<Rightarrow> string" where
  "summaryPath s = path_join (the (sessionDir s)) ''recording_summary.json''"

definition writeSummary :: "io \<Rightarrow> state \<Rightarrow> state" where
  "writeSummary env s =
     (let (ended, s1) = Date_now env s;
          summaryData =
            \<lparr>sessionEndTime = toLocaleTimeString ended,
             summaryTotalTabs = length (consoleLogs s1),
             totalNetworkEvents = networkEventsCount (progressStats s1),
             totalConsoleLogs = consoleLogsCount (progressStats s1),
             totalErrorLogs = errorLogs (progressStats s1),
             totalWarningLogs = warningLogs (progressStats s1),
             networkFlushes = networkEventFlushes (flushStats s1),
             consoleFlushes = consoleLogFlushes (flushStats s1)\<rparr>
      in if writeFileOk env (summaryPath s1)
         then s1\<lparr>files := files s1 @ [(summaryPath s1, SummaryDoc summaryData)]\<rparr>
         else s1)"

definition onDisconnected :: "io \<Rightarrow> state \<Rightarrow> state" where
  "onDisconnected env s =
     (let s0 = ensureSessionDir env s;
          s1 = performMemoryCheck env True s0;
          s2 = saveFinalHarFiles env s1;
          s3 = saveAllConsoleLogs env (the (sessionDir s2)) (consoleLogs s2) s2
      in writeSummary env s3)"

text \<open>
  Which documents are summaries, and the time of day a document records about its own
  writing: the console documents carry \<open>timestamp\<close>, the summary \<open>sessionEndTime\<close>; an
  archive records none.
\<close>

fun isSummary :: "document \<Rightarrow> bool" where
  "isSummary (SummaryDoc m) = True"
| "isSummary d = False"


section \<open>The periodic save and its sample\<close>

text \<open>
  The timer callback (lines 2443-2552) builds a sample of the buffered network events for
  the partial archive. The budget \<open>sampleSize\<close> is the constant 1000 (line 2468). For
  every tab with a non-empty buffer the share is
  \<open>Math.min(length, Math.floor(sampleSize * (length / progressStats.networkEvents)))\<close>,
  where \<open>progressStats.networkEvents\<close> counts every request seen in the session. The
  quotient is taken exactly here; the program computes it in double precision. A tab
  with a positive share contributes \<open>tabEvents.slice(startIndex)\<close>: a plain array has
  \<open>slice\<close>, a \<open>BoundedArray\<close> has not, and calling it raises TypeError, which ends the
  callback in its \<open>catch\<close> (line 2544). A sample longer than the budget is cut to its
  last \<open>sampleSize\<close> items.
\<close>

datatype jsError = TypeError | ReferenceError

definition sampleSize :: nat where
  "sampleSize = 1000"

definition tabSampleSize :: "nat \<Rightarrow> nat \<Rightarrow> nat" where
  "tabSampleSize len ingested =
     (if ingested = 0 then len else min len (sampleSize * len div ingested))"


fun buffer_slice :: "nat \<Rightarrow> buffer \<Rightarrow> jsError + nat list" where
  "buffer_slice startIndex (Plain xs) = Inr (drop startIndex xs)"
| "buffer_slice startIndex (Bounded b) = Inl TypeError"

fun sampleTabs :: "nat \<Rightarrow> (tabId \<times> buffer) list \<Rightarrow> nat list \<Rightarrow> jsError + nat list" where
  "sampleTabs ingested [] acc = Inr acc"
| "sampleTabs ingested (tb # rest) acc =
     (let tabEvents = snd tb in
      if 0 < buffer_length tabEvents \<and> 0 < tabSampleSize (buffer_length tabEvents) ingested
      then
        (case buffer_slice
                (buffer_length tabEvents - tabSampleSize (buffer_length tabEvents) ingested)
                tabEvents of
           Inl err \<Rightarrow> Inl err
         | Inr part \<Rightarrow> sampleTabs ingested rest (acc @ part))
      else sampleTabs ingested rest acc)"

definition allEventsSample :: "state \<Rightarrow> jsError + nat list" where
  "allEventsSample s =
     (case sampleTabs (networkEventsCount (progressStats s)) (networkEvents s) [] of
        Inl err \<Rightarrow> Inl err
      | Inr sample \<Rightarrow>
          Inr (if sampleSize < length sample
               then drop (length sample - sampleSize) sample else sample))"

text \<open>
  The callback as a whole: the memory check when the last flush is older than half the
  interval, a flush attempt for every tab at 90 percent of the threshold, the sample
  and the partial archive, and the status file (an object with 12 keys). The calls the
  program does not await are run in the place where they are started.
\<close>

definition nearThresholdTab :: "io \<Rightarrow> tabId \<Rightarrow> state \<Rightarrow> state" where
  "nearThresholdTab env tabId s =
     (case map_of (networkEvents s) tabId of
        None \<Rightarrow> s
      | Some tabEvents \<Rightarrow>
          if maxEventsBeforeFlush MEMORY_CONFIG * 9 div 10 \<le> buffer_length tabEvents
          then flushNetworkEventsForTab env tabId False s
          else s)"

definition autoSave :: "io \<Rightarrow> state \<Rightarrow> state" where
  "autoSave env s =
     (let (now, s1) = Date_now env s;
          s2 = (if autoFlushIntervalMs MEMORY_CONFIG div 2 < now - lastFlushTime (flushStats s1)
                then performMemoryCheck env False s1 else s1);
          s3 = fold (nearThresholdTab env) (map fst (networkEvents s2)) s2
      in case allEventsSample s3 of
           Inl err \<Rightarrow> s3
         | Inr sample \<Rightarrow>
             let harData = createHarFile (ArrayOf (deref s3 sample)) (map snd (pages s3));
                 dir = (case sessionDir s3 of None \<Rightarrow> [] | Some d \<Rightarrow> d);
                 s4 = writeTo env (path_join dir ''network_final.har'' @ ''.part'') harData s3;
                 statusFilePath = path_join dir ''recording_status.json''
             in if writeFileOk env statusFilePath
                then s4\<lparr>files := files s4 @ [(statusFilePath, JsonObject 12)]\<rparr>
                else s4)"

section \<open>Runs of the pipeline\<close>

text \<open>
  What the pipeline receives: the events of the browser connection, the timer and the
  disconnection. Every step comes with the environment it runs in, so the disk and the
  clock can change from one step to the next. A session starts with its directory set
  and everything else empty.
\<close>

datatype event =
    PageSetup tabId string string string
  | Request requestEvent
  | Response responseEvent
  | ConsoleMessage consoleEvent
  | PageError tabId string string string
  | TimerTick
  | Disconnected

fun handle :: "io \<Rightarrow> event \<Rightarrow> state \<Rightarrow> state" where
  "handle env (PageSetup pageId pgUrl host pgTitle) s = setupPage env pageId pgUrl host pgTitle s"
| "handle env (Request ev) s = onRequest env ev s"
| "handle env (Response ev) s = onResponse env ev s"
| "handle env (ConsoleMessage ev) s = onConsole env ev s"
| "handle env (PageError pageId pgTitle pgUrl message) s =
     onPageError env pageId pgTitle pgUrl message s"
| "handle env TimerTick s = autoSave env s"
| "handle env Disconnected s = onDisconnected env s"

definition initialState :: "string \<Rightarrow> state" where
  "initialState dir =
     \<lparr>sessionDir = Some dir, networkEvents = [], pages = [], requestUrlMaps = Map.empty,
      heap = [], uniqueRequestId = 0,
      progressStats = \<lparr>networkEventsCount = 0, consoleLogsCount = 0, errorLogs = 0,
                       warningLogs = 0\<rparr>,
      flushStats = \<lparr>networkEventFlushes = 0, totalNetworkEventsFlushed = 0,
                    perTabNetworkEventsFlushed = Map.empty, consoleLogFlushes = 0,
                    totalConsoleLogsFlushed = Map.empty, lastFlushTime = 0\<rparr>,
      consoleLogs = [], tabUrlStats = Map.empty, files = [], clockReads = 0\<rparr>"

fun run :: "(io \<times> event) list \<Rightarrow> state \<Rightarrow> state" where
  "run [] s = s"
| "run (step # steps) s = run steps (handle (fst step) (snd step) s)"

section \<open>Concrete sessions\<close>

text \<open>
  A tab that has been set up and has seen no event yet; the same tab with 5000 requests
  buffered, the flush threshold; and a tab whose console record holds three errors and
  two warnings.
\<close>

definition openedTab :: state where
  "openedTab = setupPage goodDisk ''tabA'' ''http://a.test/'' ''a.test'' ''A'' (initialState ''/session'')"

definition exampleRequest :: requestEvent where
  "exampleRequest =
     \<lparr>reqPageId = ''tabA'', reqUrl = ''http://a.test/x'', reqMethod = ''GET'',
      reqResourceType = ''xhr'', reqFrame = None\<rparr>"

definition fullBufferState :: state where
  "fullBufferState =
     (initialState ''/session'')
       \<lparr>networkEvents :=
          [(''tabA'', Bounded \<lparr>maxSize = 6000, array = [0..<5000], overflowed = False\<rparr>)],
        heap := map (\<lambda>i. newEntry exampleRequest (Suc i) 0) [0..<5000],
        uniqueRequestId := 5000,
        progressStats := \<lparr>networkEventsCount = 5000, consoleLogsCount = 0, errorLogs = 0,
                          warningLogs = 0\<rparr>\<rparr>"

definition consoleMessage :: "string \<Rightarrow> consoleEntry" where
  "consoleMessage t = \<lparr>logTimestamp = 0, logType = t, logText = ''message''\<rparr>"

definition tabBLogs :: tabLogs where
  "tabBLogs =
     \<lparr>pageTitle = ''B'', pageUrl = ''http://b.test/'',
      logs = [consoleMessage ''error'', consoleMessage ''warning'', consoleMessage ''error'',
              consoleMessage ''warning'', consoleMessage ''error''],
      lastActivity = 7, flushFiles = None\<rparr>"

definition errorsAndWarnings :: state where
  "errorsAndWarnings = (initialState ''/session'')\<lparr>consoleLogs := [(''tabB'', tabBLogs)]\<rparr>"



definition answer :: responseEvent where
  "answer =
     \<lparr>respPageId = ''tabA'', respUrl = ''http://a.test/x'', respStatus = 200,
      respStatusText = ''OK'', respContentType = ''text/html'', respRemoteIp = Some ''10.0.0.1''\<rparr>"






text \<open>
  A session in which a tab is set up and then logs three errors and two warnings, one
  console message at a time.
\<close>

definition say :: "string \<Rightarrow> io \<times> event" where
  "say t =
     (goodDisk,
      ConsoleMessage \<lparr>conPageId = ''tabB'', conType = t, conText = ''message'',
                       conTitle = ''B'', conUrl = ''http://b.test/'', conCurrent = None\<rparr>)"

definition fiveMessages :: state where
  "fiveMessages =
     run [(goodDisk, PageSetup ''tabB'' ''http://b.test/'' ''b.test'' ''B''),
          say ''error'', say ''warning'', say ''error'', say ''warning'', say ''error'']
       (initialState ''/session'')"

section \<open>Predicates on states\<close>

text \<open>
  The invariant: every tab's buffer is a \<open>BoundedArray\<close> of the configured capacity that
  holds no more items than that.
\<close>

definition bufferBounded :: "buffer \<Rightarrow> bool" where
  "bufferBounded b =
     (case b of
        Bounded ba \<Rightarrow> maxSize ba = networkCapacity \<and> length (array ba) \<le> networkCapacity
      | Plain xs \<Rightarrow> False)"

definition allBounded :: "state \<Rightarrow> bool" where
  "allBounded s = list_all (\<lambda>tb. bufferBounded (snd tb)) (networkEvents s)"

text \<open>
  A step appends data: what it adds to the file system's history holds no summary.
\<close>

definition appendsData :: "state \<Rightarrow> state \<Rightarrow> bool" where
  "appendsData s s' =
     (\<exists>ws. files s' = files s @ ws \<and> list_all (\<lambda>pd. \<not> isSummary (snd pd)) ws)"

text \<open>No URL map holds an entry object.\<close>

definition noPending :: "state \<Rightarrow> bool" where
  "noPending s = (\<forall>t u. lookupEntry s t u = Undefined)"

text \<open>
  The console record of \<open>tabB\<close> holds records of the given types, in a session that has
  flushed nothing yet.
\<close>

definition tabBHolds :: "state \<Rightarrow> string list \<Rightarrow> bool" where
  "tabBHolds s ts =
     (\<exists>rec. map_of (consoleLogs s) ''tabB'' = Some rec \<and> map logType (logs rec) = ts
        \<and> pageTitle rec = ''B'' \<and> pageUrl rec = ''http://b.test/''
        \<and> sessionDir s = Some ''/session'' \<and> files s = []
        \<and> totalConsoleLogsFlushed (flushStats s) = Map.empty)"

section \<open>Properties of the bounded buffer\<close>

lemma push_maxSize [simp]: "maxSize (snd (BoundedArray_push x b)) = maxSize b"
  by (simp add: BoundedArray_push_def Let_def)

lemma push_returns_length: "fst (BoundedArray_push x b) = length (array (snd (BoundedArray_push x b)))"
  by (simp add: BoundedArray_push_def Let_def)

lemma push_array:
  assumes "0 < maxSize b" and "length (array b) \<le> maxSize b"
  shows "array (snd (BoundedArray_push x b)) =
         drop (length (array b) + 1 - maxSize b) (array b @ [x])"
proof (cases "maxSize b \<le> length (array b)")
  case True
  with assms have len: "length (array b) = maxSize b" and ne: "array b \<noteq> []" by auto
  from ne have "tl (array b) @ [x] = drop 1 (array b @ [x])"
    by (cases "array b") simp_all
  with True len show ?thesis
    by (simp add: BoundedArray_push_def Let_def)
next
  case False
  then show ?thesis by (simp add: BoundedArray_push_def Let_def)
qed

lemma push_length_le:
  "length (array b) \<le> maxSize b \<Longrightarrow> 0 < maxSize b \<Longrightarrow>
   length (array (snd (BoundedArray_push x b))) \<le> maxSize b"
  by (cases "array b") (auto simp: BoundedArray_push_def Let_def)

lemma push_all_maxSize [simp]: "maxSize (snd (push_all xs b)) = maxSize b"
  by (induction xs arbitrary: b) (simp_all add: Let_def split: prod.splits, metis push_maxSize snd_conv)


lemma push_len: "0 < maxSize b \<Longrightarrow> length (array b) \<le> maxSize b \<Longrightarrow>
  length (array (snd (BoundedArray_push x b))) = min (length (array b) + 1) (maxSize b)"
  by (cases "array b") (auto simp: BoundedArray_push_def Let_def)

lemma push_all_array:
  "0 < maxSize b \<Longrightarrow> length (array b) \<le> maxSize b \<Longrightarrow>
   array (snd (push_all xs b)) =
   drop (length (array b) + length xs - maxSize b) (array b @ xs)"
proof (induction xs arbitrary: b)
  case Nil
  then show ?case by simp
next
  case (Cons x xs)
  define b1 where "b1 = snd (BoundedArray_push x b)"
  have m: "maxSize b1 = maxSize b" unfolding b1_def by simp
  have l1: "length (array b1) \<le> maxSize b1"
    unfolding b1_def using push_length_le [OF Cons.prems(2) Cons.prems(1)] by simp
  have ih: "array (snd (push_all xs b1)) =
        drop (length (array b1) + length xs - maxSize b) (array b1 @ xs)"
    using Cons.IH [of b1] Cons.prems(1) m l1 by simp
  have step: "snd (push_all (x # xs) b) = snd (push_all xs b1)"
    unfolding b1_def by (simp add: Let_def split: prod.splits)
  show ?case
  proof (cases "maxSize b \<le> length (array b)")
    case True
    with Cons.prems have len: "length (array b) = maxSize b" and ne: "array b \<noteq> []" by auto
    have a1: "array b1 = tl (array b) @ [x]"
      unfolding b1_def using True by (simp add: BoundedArray_push_def Let_def)
    have "array b1 @ xs = drop 1 (array b @ x # xs)"
      using a1 ne by (cases "array b") simp_all
    moreover have "length (array b1) = maxSize b"
      using a1 len ne by (cases "array b") auto
    ultimately show ?thesis using ih step len Cons.prems(1) by simp
  next
    case False
    have a1: "array b1 = array b @ [x]"
      unfolding b1_def using False by (simp add: BoundedArray_push_def Let_def)
    show ?thesis using ih step a1 by simp
  qed
qed

lemma push_all_returns:
  "0 < maxSize b \<Longrightarrow> length (array b) \<le> maxSize b \<Longrightarrow>
   fst (push_all xs b) =
   map (\<lambda>i. min (length (array b) + Suc i) (maxSize b)) [0..<length xs]"
proof (induction xs arbitrary: b)
  case Nil
  then show ?case by simp
next
  case (Cons x xs)
  define b1 where "b1 = snd (BoundedArray_push x b)"
  have m: "maxSize b1 = maxSize b" unfolding b1_def by simp
  have len1: "length (array b1) = min (length (array b) + 1) (maxSize b)"
    unfolding b1_def using push_len [OF Cons.prems] by simp
  have l1: "length (array b1) \<le> maxSize b1" using len1 m by simp
  have ih: "fst (push_all xs b1) =
        map (\<lambda>i. min (length (array b1) + Suc i) (maxSize b)) [0..<length xs]"
    using Cons.IH [of b1] Cons.prems(1) m l1 by simp
  have step: "fst (push_all (x # xs) b) = fst (BoundedArray_push x b) # fst (push_all xs b1)"
    unfolding b1_def by (simp add: Let_def split: prod.splits)
  have r1: "fst (BoundedArray_push x b) = min (length (array b) + 1) (maxSize b)"
    using push_returns_length [of x b] len1 b1_def by simp
  have shift: "[0..<length (x # xs)] = 0 # map Suc [0..<length xs]"
    by (simp add: upt_conv_Cons map_Suc_upt del: upt_Suc)
  have "map (\<lambda>i. min (length (array b1) + Suc i) (maxSize b)) [0..<length xs] =
        map (\<lambda>i. min (length (array b) + Suc (Suc i)) (maxSize b)) [0..<length xs]"
    using len1 by (auto simp: min_def)
  then show ?case unfolding shift using step r1 ih by (simp add: comp_def)
qed

theorem bounded_push_keeps_last:
  assumes "0 < C" and "C < length (xs :: 'a list)"
  shows "array (snd (push_all xs (BoundedArray_new C))) = drop (length xs - C) xs
       \<and> BoundedArray_length (snd (push_all xs (BoundedArray_new C))) = C
       \<and> fst (push_all xs (BoundedArray_new C)) = map (\<lambda>i. min (Suc i) C) [0..<length xs]
       \<and> (\<forall>x (b :: 'a BoundedArray).
            fst (BoundedArray_push x b) = BoundedArray_length (snd (BoundedArray_push x b)))"
proof -
  let ?b = "BoundedArray_new C :: 'a BoundedArray"
  have m: "0 < maxSize ?b" and l: "length (array ?b) \<le> maxSize ?b"
    using assms by (simp_all add: BoundedArray_new_def)
  have a: "array (snd (push_all xs ?b)) = drop (length xs - C) xs"
    using push_all_array [OF m l, of xs] by (simp add: BoundedArray_new_def)
  have r: "fst (push_all xs ?b) = map (\<lambda>i. min (Suc i) C) [0..<length xs]"
    using push_all_returns [OF m l, of xs] by (simp add: BoundedArray_new_def)
  from a assms have "BoundedArray_length (snd (push_all xs ?b)) = C"
    by (simp add: BoundedArray_length_def)
  with a r show ?thesis
    by (simp add: push_returns_length BoundedArray_length_def)
qed

theorem bounded_push_keeps_last_witness:
  "array (snd (push_all [1, 2, 3, 4, 5 :: nat] (BoundedArray_new 3))) = [3, 4, 5]
   \<and> BoundedArray_length (snd (push_all [1, 2, 3, 4, 5 :: nat] (BoundedArray_new 3))) = 3
   \<and> fst (push_all [1, 2, 3, 4, 5 :: nat] (BoundedArray_new 3)) = [1, 2, 3, 3, 3]"
  using bounded_push_keeps_last [of 3 "[1, 2, 3, 4, 5 :: nat]"]
  by (simp add: upt_rec numeral_2_eq_2 numeral_3_eq_3 del: push_all.simps)

section \<open>What a network flush does, and the bound on the buffers\<close>

lemma flushStats_not_in_scope: "in_scope ModuleLevel ''flushStats'' = False"
  by (simp add: in_scope_def declared_def)

lemma flushStats_in_scope: "in_scope MainFunction ''flushStats'' = True"
  by (simp add: in_scope_def declared_def)

text \<open>
  \<open>flushNetworkEventsForTab\<close> leaves the program's variables as they are: past its
  guards it stops at the read of \<open>flushStats\<close>.
\<close>

lemma flushNetworkEventsForTab_unchanged: "flushNetworkEventsForTab env tabId forceSave s = s"
  by (simp add: flushNetworkEventsForTab_def flushStats_not_in_scope Let_def
           split: option.splits)

lemma networkEvents_Date_now [simp]:
  "networkEvents (snd (Date_now env s)) = networkEvents s"
  by (simp add: Date_now_def)

lemma networkEvents_fold:
  assumes "\<And>x s. networkEvents (f x s) = networkEvents s"
  shows "networkEvents (fold f xs s) = networkEvents s"
  using assms by (induction xs arbitrary: s) simp_all

lemma networkEvents_writeTo [simp]: "networkEvents (writeTo env p d s) = networkEvents s"
  by (simp add: writeTo_def split: option.splits)

lemma networkEvents_trackTabBaseUrl [simp]:
  "networkEvents (trackTabBaseUrl tabId u b s) = networkEvents s"
  by (simp add: trackTabBaseUrl_def Let_def)

lemma networkEvents_flushConsole [simp]:
  "networkEvents (flushConsoleLogsForTab env tabId forceSave s) = networkEvents s"
  by (simp add: flushConsoleLogsForTab_def Date_now_def Let_def split: option.splits)

lemma networkEvents_performMemoryCheck [simp]:
  "networkEvents (performMemoryCheck env force s) = networkEvents s"
proof -
  have a: "\<And>x s. networkEvents (checkNetworkTab env force x s) = networkEvents s"
    by (simp add: checkNetworkTab_def flushNetworkEventsForTab_unchanged split: option.splits)
  have b: "\<And>x s. networkEvents (checkConsoleTab env force x s) = networkEvents s"
    by (simp add: checkConsoleTab_def split: option.splits)
  show ?thesis
    by (simp add: performMemoryCheck_def Let_def networkEvents_fold [OF a] networkEvents_fold [OF b])
qed

lemma networkEvents_saveFinalHarFiles [simp]:
  "networkEvents (saveFinalHarFiles env s) = networkEvents s"
proof -
  have a: "\<And>d x s. networkEvents (saveTabHar env d x s) = networkEvents s"
    by (simp add: saveTabHar_def Let_def)
  show ?thesis
    by (simp add: saveFinalHarFiles_def Let_def networkEvents_fold [OF a] split: option.splits)
qed

lemma networkEvents_saveEachTabLogs [simp]:
  "networkEvents (saveEachTabLogs env d i pts s) = networkEvents s"
  by (induction pts arbitrary: i s)
     (simp_all add: saveTabLogs_def Date_now_def Let_def)

lemma networkEvents_saveAllConsoleLogs [simp]:
  "networkEvents (saveAllConsoleLogs env d pts s) = networkEvents s"
  by (simp add: saveAllConsoleLogs_def Date_now_def Let_def)

lemma networkEvents_onDisconnected [simp]:
  "networkEvents (onDisconnected env s) = networkEvents s"
  by (simp add: onDisconnected_def writeSummary_def ensureSessionDir_def Date_now_def Let_def)

lemma networkEvents_autoSave [simp]: "networkEvents (autoSave env s) = networkEvents s"
proof -
  have a: "\<And>x s. networkEvents (nearThresholdTab env x s) = networkEvents s"
    by (simp add: nearThresholdTab_def flushNetworkEventsForTab_unchanged split: option.splits)
  show ?thesis
    by (simp add: autoSave_def Date_now_def Let_def networkEvents_fold [OF a]
             split: sum.splits)
qed

lemma networkEvents_onResponse [simp]: "networkEvents (onResponse env ev s) = networkEvents s"
  by (simp add: onResponse_def Date_now_def Let_def split: option.splits jsref.splits)

lemma networkEvents_onConsole [simp]: "networkEvents (onConsole env ev s) = networkEvents s"
  by (simp add: onConsole_def refreshPageInfo_def Date_now_def Let_def
           split: option.splits prod.splits)

lemma networkEvents_onPageError [simp]:
  "networkEvents (onPageError env p t u m s) = networkEvents s"
  by (simp add: onPageError_def Date_now_def Let_def)

lemma networkCapacity_value: "networkCapacity = 6000"
  by (simp add: networkCapacity_def MEMORY_CONFIG_def)

lemma list_all_update:
  "list_all (\<lambda>tb. P (snd tb)) al \<Longrightarrow> P v \<Longrightarrow> list_all (\<lambda>tb. P (snd tb)) (AList.update k v al)"
  by (induction al) auto

lemma list_all_map_of:
  "list_all (\<lambda>tb. P (snd tb)) al \<Longrightarrow> map_of al k = Some v \<Longrightarrow> P v"
  by (induction al) (auto split: if_splits)

lemma bufferBounded_push: "bufferBounded b \<Longrightarrow> bufferBounded (buffer_push a b)"
proof (cases b)
  case (Bounded ba)
  assume "bufferBounded b"
  with Bounded have m: "maxSize ba = networkCapacity" and l: "length (array ba) \<le> maxSize ba"
    by (simp_all add: bufferBounded_def)
  have "0 < maxSize ba" using m by (simp add: networkCapacity_value)
  from push_length_le [OF l this, of a] m Bounded show ?thesis
    by (simp add: bufferBounded_def)
next
  case (Plain xs)
  assume "bufferBounded b"
  with Plain show ?thesis by (simp add: bufferBounded_def)
qed

lemma networkEvents_initTab:
  "networkEvents (initTabNetworkEvents tabId s) =
     (case map_of (networkEvents s) tabId of
        None \<Rightarrow> AList.update tabId (Bounded (BoundedArray_new networkCapacity)) (networkEvents s)
      | Some b \<Rightarrow> networkEvents s)"
  by (simp add: initTabNetworkEvents_def split: option.splits)

lemma allBounded_initTab: "allBounded s \<Longrightarrow> allBounded (initTabNetworkEvents tabId s)"
  by (auto simp: allBounded_def networkEvents_initTab bufferBounded_def BoundedArray_new_def
           intro!: list_all_update split: option.splits)

lemma networkEvents_onRequest:
  "\<exists>a. networkEvents (onRequest env ev s) =
     (let ne = (case map_of (networkEvents s) (reqPageId ev) of
                  None \<Rightarrow> AList.update (reqPageId ev) (Bounded (BoundedArray_new networkCapacity))
                            (networkEvents s)
                | Some b \<Rightarrow> networkEvents s)
      in AList.update (reqPageId ev) (buffer_push a (the (map_of ne (reqPageId ev)))) ne)"
proof (cases "reqFrame ev")
  case None
  then show ?thesis
    by (simp add: onRequest_def Let_def Date_now_def flushNetworkEventsForTab_unchanged
          networkEvents_initTab split: option.splits) blast
next
  case (Some uh)
  then show ?thesis
    by (cases uh)
       (simp add: onRequest_def Let_def Date_now_def flushNetworkEventsForTab_unchanged
          networkEvents_initTab split: option.splits, blast)
qed

lemma allBounded_onRequest:
  assumes "allBounded s"
  shows "allBounded (onRequest env ev s)"
proof -
  obtain a where ne: "networkEvents (onRequest env ev s) =
     (let ne = (case map_of (networkEvents s) (reqPageId ev) of
                  None \<Rightarrow> AList.update (reqPageId ev) (Bounded (BoundedArray_new networkCapacity))
                            (networkEvents s)
                | Some b \<Rightarrow> networkEvents s)
      in AList.update (reqPageId ev) (buffer_push a (the (map_of ne (reqPageId ev)))) ne)"
    using networkEvents_onRequest by blast
  have new: "bufferBounded (Bounded (BoundedArray_new networkCapacity))"
    by (simp add: bufferBounded_def BoundedArray_new_def)
  show ?thesis
  proof (cases "map_of (networkEvents s) (reqPageId ev)")
    case None
    have "list_all (\<lambda>tb. bufferBounded (snd tb))
            (AList.update (reqPageId ev) (Bounded (BoundedArray_new networkCapacity))
               (networkEvents s))"
      using assms new unfolding allBounded_def by (rule list_all_update)
    then have "list_all (\<lambda>tb. bufferBounded (snd tb))
            (AList.update (reqPageId ev)
               (buffer_push a (Bounded (BoundedArray_new networkCapacity)))
               (AList.update (reqPageId ev) (Bounded (BoundedArray_new networkCapacity))
                  (networkEvents s)))"
      using bufferBounded_push [OF new] by (rule list_all_update)
    then show ?thesis using ne None
      by (simp add: allBounded_def Let_def update_conv')
  next
    case (Some b)
    have "bufferBounded b"
      using assms Some unfolding allBounded_def by (rule list_all_map_of)
    then have "bufferBounded (buffer_push a b)" by (rule bufferBounded_push)
    with assms have "list_all (\<lambda>tb. bufferBounded (snd tb))
            (AList.update (reqPageId ev) (buffer_push a b) (networkEvents s))"
      unfolding allBounded_def by (rule list_all_update)
    then show ?thesis using ne Some by (simp add: allBounded_def Let_def)
  qed
qed

lemma allBounded_setupPage: "allBounded s \<Longrightarrow> allBounded (setupPage env p u h t s)"
proof -
  assume a: "allBounded s"
  have "allBounded (initTabNetworkEvents p
          ((snd (Date_now env (trackTabBaseUrl p u h s)))
           \<lparr>consoleLogs := AList.update p
              \<lparr>pageTitle = t, pageUrl = u, logs = [],
               lastActivity = fst (Date_now env (trackTabBaseUrl p u h s)), flushFiles = None\<rparr>
              (consoleLogs (snd (Date_now env (trackTabBaseUrl p u h s))))\<rparr>))"
    using a by (intro allBounded_initTab) (simp add: allBounded_def)
  then show ?thesis
    by (simp add: setupPage_def Let_def allBounded_def Date_now_def split: prod.splits)
qed

lemma allBounded_handle: "allBounded s \<Longrightarrow> allBounded (handle env e s)"
proof (cases e)
  case (Request ev)
  assume "allBounded s"
  then show ?thesis using Request by (simp add: allBounded_onRequest)
next
  case (PageSetup p u h t)
  assume "allBounded s"
  then show ?thesis using PageSetup by (simp add: allBounded_setupPage)
qed (simp_all add: allBounded_def)

lemma allBounded_run: "allBounded s \<Longrightarrow> allBounded (run steps s)"
  by (induction steps arbitrary: s) (simp_all add: allBounded_handle)

lemma allBounded_initialState: "allBounded (initialState dir)"
  by (simp add: allBounded_def initialState_def)

text \<open>
  Claim C1. After any sequence of steps from the start of a session (requests,
  responses, console messages, timer ticks with their flush attempts, forced flushes at
  disconnection, each in any environment), every tab's network buffer holds at most the
  capacity 6000, whatever the number of events that were pushed.
\<close>

theorem network_buffers_bounded:
  "list_all (\<lambda>tb. buffer_length (snd tb) \<le> networkCapacity)
     (networkEvents (run steps (initialState dir)))
   \<and> networkCapacity = 6000"
proof -
  have "allBounded (run steps (initialState dir))"
    by (rule allBounded_run [OF allBounded_initialState])
  then have "list_all (\<lambda>tb. buffer_length (snd tb) \<le> networkCapacity)
     (networkEvents (run steps (initialState dir)))"
    unfolding allBounded_def
    by (rule list.pred_mono_strong)
       (auto simp: bufferBounded_def BoundedArray_length_def split: buffer.splits)
  then show ?thesis by (simp add: networkCapacity_value)
qed

lemma one_request_buffer:
  "map (\<lambda>tb. buffer_length (snd tb))
     (networkEvents (onRequest goodDisk exampleRequest openedTab)) = [1]"
  by (simp add: onRequest_def exampleRequest_def openedTab_def setupPage_def initialState_def
        trackTabBaseUrl_def Date_now_def Let_def initTabNetworkEvents_def BoundedArray_new_def
        BoundedArray_push_def BoundedArray_length_def flushNetworkEventsForTab_unchanged
        MEMORY_CONFIG_def)

theorem network_buffers_bounded_witness:
  "list_all (\<lambda>tb. buffer_length (snd tb) \<le> networkCapacity)
     (networkEvents
        (run [(goodDisk, PageSetup ''tabA'' ''http://a.test/'' ''a.test'' ''A''),
              (goodDisk, Request exampleRequest),
              (backupOnlyDisk, TimerTick),
              (goodDisk, Disconnected)]
           (initialState ''/session'')))
   \<and> map (\<lambda>tb. buffer_length (snd tb))
       (networkEvents
          (run [(goodDisk, PageSetup ''tabA'' ''http://a.test/'' ''a.test'' ''A''),
                (goodDisk, Request exampleRequest),
                (backupOnlyDisk, TimerTick),
                (goodDisk, Disconnected)]
             (initialState ''/session''))) = [1]"
  using network_buffers_bounded
          [of "[(goodDisk, PageSetup ''tabA'' ''http://a.test/'' ''a.test'' ''A''),
                (goodDisk, Request exampleRequest),
                (backupOnlyDisk, TimerTick),
                (goodDisk, Disconnected)]" "''/session''"]
        one_request_buffer
  by (simp add: openedTab_def)

section \<open>The fallback chain of the writer\<close>

text \<open>
  Claim C4, as stated: every write request goes through up to three strategies in order
  (primary write, uncompressed synchronous write, \<open>.backup\<close> write) and an error is
  reported only if all three fail. It fails for an object with 11 keys when the gzip
  stream and the synchronous write fail and the \<open>.backup\<close> write would succeed: the
  promise rejects after two attempts and the \<open>.backup\<close> write is never tried.
\<close>

theorem writer_three_strategies_counterexample:
  "result (writeCompressedFile backupOnlyDisk ''out.json'' (JsonObject 11)) = None
   \<and> attempts (writeCompressedFile backupOnlyDisk ''out.json'' (JsonObject 11)) =
       [(GzipStream, ''out.json.gz''), (SyncFallback, ''out.json'')]
   \<and> writeFileOk backupOnlyDisk ''out.json.backup''"
  by (simp add: writeCompressedFile_def backupOnlyDisk_def MEMORY_CONFIG_def)

text \<open>
  Claim C4, amended: every write request makes at most two attempts. With compression on
  and more than 10 keys, the first is the gzip stream to \<open>path.gz\<close>; after a stream error
  the second is the uncompressed synchronous write to \<open>path\<close>, and after an exception in
  setting the stream up it is the \<open>.backup\<close> write. Otherwise the first is the synchronous
  write to \<open>path\<close> and the second the \<open>.backup\<close> write. An error is reported exactly when
  the attempts made have all failed, and the path reported otherwise is the path of the
  last attempt.
\<close>

theorem writer_two_attempts:
  "length (attempts (writeCompressedFile env p d)) \<le> 2
   \<and> attempts (writeCompressedFile env p d) =
       (if useCompression MEMORY_CONFIG \<and> 10 < numKeys d
        then (if \<not> streamSetupOk env (p @ ''.gz'')
              then [(GzipStream, p @ ''.gz''), (BackupWrite, p @ ''.backup'')]
              else if streamOk env (p @ ''.gz'') then [(GzipStream, p @ ''.gz'')]
              else [(GzipStream, p @ ''.gz''), (SyncFallback, p)])
        else (if writeFileOk env p then [(SyncWrite, p)]
              else [(SyncWrite, p), (BackupWrite, p @ ''.backup'')]))
   \<and> (result (writeCompressedFile env p d) = None \<longleftrightarrow>
        (if useCompression MEMORY_CONFIG \<and> 10 < numKeys d
         then (if \<not> streamSetupOk env (p @ ''.gz'') then \<not> writeFileOk env (p @ ''.backup'')
               else \<not> streamOk env (p @ ''.gz'') \<and> \<not> writeFileOk env p)
         else \<not> writeFileOk env p \<and> \<not> writeFileOk env (p @ ''.backup'')))
   \<and> (\<forall>q. result (writeCompressedFile env p d) = Some q \<longrightarrow>
          q = snd (last (attempts (writeCompressedFile env p d))))"
  by (simp add: writeCompressedFile_def backupWrite_def Let_def)

theorem writer_two_attempts_witness:
  "attempts (writeCompressedFile backupOnlyDisk ''out.json'' (HarDoc [] [])) =
     [(SyncWrite, ''out.json''), (BackupWrite, ''out.json.backup'')]
   \<and> result (writeCompressedFile backupOnlyDisk ''out.json'' (HarDoc [] [])) =
       Some ''out.json.backup''"
  using writer_two_attempts [of backupOnlyDisk "''out.json''" "HarDoc [] []"]
  by (auto simp: backupOnlyDisk_def MEMORY_CONFIG_def)


section \<open>The flush cycle of a network buffer\<close>

text \<open>
  Claim C3 says that a flush cycle of a tab's network buffer clears the buffer and
  advances the tab's flush sequence when the write succeeds, and leaves both as they are
  when it fails. At the threshold of 5000 buffered requests, on a disk where every write
  succeeds, the flush (forced or not) writes no file, leaves the 5000 entries in the
  buffer and leaves the tab's flush count unset: the cycle ends at line 1434, before
  the archive is built and written.
\<close>

theorem network_flush_writes_nothing:
  "buffer_length (the (map_of (networkEvents fullBufferState) ''tabA'')) = 5000
   \<and> maxEventsBeforeFlush MEMORY_CONFIG = 5000
   \<and> writeFileOk goodDisk = (\<lambda>p. True)
   \<and> flushNetworkEventsForTab goodDisk ''tabA'' False fullBufferState = fullBufferState
   \<and> flushNetworkEventsForTab goodDisk ''tabA'' True fullBufferState = fullBufferState
   \<and> files fullBufferState = []
   \<and> perTabNetworkEventsFlushed (flushStats fullBufferState) ''tabA'' = None"
  by (simp add: flushNetworkEventsForTab_unchanged fullBufferState_def initialState_def
        BoundedArray_length_def MEMORY_CONFIG_def goodDisk_def)

section \<open>The console flush\<close>

lemma flushConsole_writes:
  assumes w: "consoleFlushWrites env t f s" and r: "map_of (consoleLogs s) t = Some rec"
  shows "flushConsoleLogsForTab env t f s =
     s\<lparr>clockReads := Suc (Suc (clockReads s)),
       files := files s @
         [(consoleFlushPath (the (sessionDir s)) rec t
             (orZero (totalConsoleLogsFlushed (flushStats s) t)),
           ConsoleFlushDoc
             \<lparr>docTimestamp = toLocaleTimeString (clock env (clockReads s)), docPageId = t,
              docPageTitle = pageTitle rec, docPageUrl = pageUrl rec,
              flushSequence = Some (orZero (totalConsoleLogsFlushed (flushStats s) t) + 1),
              totalEntries = length (logs rec),
              docEntriesByType = countEntries (logs rec),
              docEntries = logs rec\<rparr>)],
       flushStats := (flushStats s)
         \<lparr>totalConsoleLogsFlushed :=
            (totalConsoleLogsFlushed (flushStats s))
              (t \<mapsto> orZero (totalConsoleLogsFlushed (flushStats s) t) + length (logs rec)),
          consoleLogFlushes := consoleLogFlushes (flushStats s) + 1,
          lastFlushTime := clock env (Suc (clockReads s))\<rparr>,
       consoleLogs :=
         AList.update t
           (rec\<lparr>logs := [],
                flushFiles :=
                  Some ((case flushFiles rec of None \<Rightarrow> [] | Some fs \<Rightarrow> fs)
                        @ [consoleFlushPath (the (sessionDir s)) rec t
                             (orZero (totalConsoleLogsFlushed (flushStats s) t))])\<rparr>)
           (consoleLogs s)\<rparr>"
  using w r
  by (auto simp: consoleFlushWrites_def flushConsoleLogsForTab_def flushStats_in_scope
        Date_now_def Let_def)


lemma flushConsole_no_record:
  "map_of (consoleLogs s) t = None \<Longrightarrow> flushConsoleLogsForTab env t f s = s"
  by (simp add: flushConsoleLogsForTab_def)

lemma string_of_nat_1: "string_of_nat 1 = ''1''"
  by code_simp

lemma string_of_nat_Suc_0 [simp]: "string_of_nat (Suc 0) = ''1''"
  using string_of_nat_1 by simp

lemma openedTab_consoleLogs:
  "consoleLogs openedTab =
     [(''tabA'', \<lparr>pageTitle = ''A'', pageUrl = ''http://a.test/'', logs = [],
                  lastActivity = 0, flushFiles = None\<rparr>)]"
  by (simp add: openedTab_def setupPage_def initialState_def trackTabBaseUrl_def Date_now_def
        Let_def initTabNetworkEvents_def goodDisk_def)

lemma openedTab_rest:
  "sessionDir openedTab = Some ''/session'' \<and> files openedTab = []
   \<and> totalConsoleLogsFlushed (flushStats openedTab) = Map.empty
   \<and> consoleLogFlushes (flushStats openedTab) = 0
   \<and> clockReads openedTab = 2"
  by (simp add: openedTab_def setupPage_def initialState_def trackTabBaseUrl_def Date_now_def
        Let_def initTabNetworkEvents_def goodDisk_def)

lemma consoleFlushPath_A:
  "consoleFlushPath ''/session''
     \<lparr>pageTitle = ''A'', pageUrl = ''http://a.test/'', logs = [], lastActivity = 0,
      flushFiles = None\<rparr> ''tabA'' 0
   = ''/session/console_flushes/console_A_tabA_flush_1.json''"
  by (simp add: consoleFlushPath_def path_join_def safeTitleOf_def alnumChar_def
        string_of_nat_1)

lemma openedTab_flush_writes: "consoleFlushWrites goodDisk ''tabA'' True openedTab"
  by (simp add: consoleFlushWrites_def openedTab_consoleLogs openedTab_rest sessionDirSet_def
        goodDisk_def)

text \<open>
  Claim C5, as stated: a forced flush of a source whose buffer is empty creates no file.
  It fails for the console buffer of a tab that was set up and has logged nothing: the
  forced flush writes the flush document number 1 of the tab and counts one console
  flush.
\<close>

theorem forced_empty_flush_counterexample:
  "logs (the (map_of (consoleLogs openedTab) ''tabA'')) = []
   \<and> files openedTab = []
   \<and> map fst (files (flushConsoleLogsForTab goodDisk ''tabA'' True openedTab)) =
       [''/session/console_flushes/console_A_tabA_flush_1.json'']
   \<and> consoleLogFlushes (flushStats (flushConsoleLogsForTab goodDisk ''tabA'' True openedTab)) = 1"
  by (simp add: flushConsole_writes [OF openedTab_flush_writes]
        openedTab_consoleLogs openedTab_rest consoleFlushPath_A orZero_def)

text \<open>
  Claim C5, amended: a forced flush of a source that has no console record, or no
  network buffer, changes nothing. A forced console flush of a source whose record holds
  no logs, with the session directory set and the flush directory and file writable, is
  not a no-op: it appends one flush document with \<open>totalEntries = 0\<close>, all six counts 0
  and no entries, numbered one more than the count of the tab's logs flushed so far;
  that count stays as it was (so the next flush document gets the same number), and the
  number of console flushes grows by one.
\<close>

theorem forced_flush_of_empty_source:
  "(map_of (consoleLogs s) t = None \<longrightarrow> flushConsoleLogsForTab env t True s = s)
   \<and> (map_of (networkEvents s) t = None \<longrightarrow> flushNetworkEventsForTab env t True s = s)
   \<and> (map_of (consoleLogs s) t = Some rec \<and> logs rec = [] \<and> consoleFlushWrites env t True s \<longrightarrow>
        files (flushConsoleLogsForTab env t True s) =
          files s @
          [(consoleFlushPath (the (sessionDir s)) rec t
              (orZero (totalConsoleLogsFlushed (flushStats s) t)),
            ConsoleFlushDoc
              \<lparr>docTimestamp = toLocaleTimeString (clock env (clockReads s)), docPageId = t,
               docPageTitle = pageTitle rec, docPageUrl = pageUrl rec,
               flushSequence = Some (orZero (totalConsoleLogsFlushed (flushStats s) t) + 1),
               totalEntries = 0, docEntriesByType = noEntries, docEntries = []\<rparr>)]
        \<and> orZero (totalConsoleLogsFlushed
                    (flushStats (flushConsoleLogsForTab env t True s)) t) =
            orZero (totalConsoleLogsFlushed (flushStats s) t)
        \<and> consoleLogFlushes (flushStats (flushConsoleLogsForTab env t True s)) =
            consoleLogFlushes (flushStats s) + 1)"
proof (intro conjI impI)
  assume "map_of (consoleLogs s) t = None"
  then show "flushConsoleLogsForTab env t True s = s" by (rule flushConsole_no_record)
next
  show "flushNetworkEventsForTab env t True s = s" by (rule flushNetworkEventsForTab_unchanged)
next
  assume a: "map_of (consoleLogs s) t = Some rec \<and> logs rec = [] \<and> consoleFlushWrites env t True s"
  then have r: "map_of (consoleLogs s) t = Some rec" and e: "logs rec = []"
    and w: "consoleFlushWrites env t True s" by simp_all
  show "files (flushConsoleLogsForTab env t True s) =
          files s @
          [(consoleFlushPath (the (sessionDir s)) rec t
              (orZero (totalConsoleLogsFlushed (flushStats s) t)),
            ConsoleFlushDoc
              \<lparr>docTimestamp = toLocaleTimeString (clock env (clockReads s)), docPageId = t,
               docPageTitle = pageTitle rec, docPageUrl = pageUrl rec,
               flushSequence = Some (orZero (totalConsoleLogsFlushed (flushStats s) t) + 1),
               totalEntries = 0, docEntriesByType = noEntries, docEntries = []\<rparr>)]"
    by (simp add: flushConsole_writes [OF w r] e countEntries_def)
  show "orZero (totalConsoleLogsFlushed (flushStats (flushConsoleLogsForTab env t True s)) t) =
        orZero (totalConsoleLogsFlushed (flushStats s) t)"
    by (simp add: flushConsole_writes [OF w r] e orZero_def)
  show "consoleLogFlushes (flushStats (flushConsoleLogsForTab env t True s)) =
        consoleLogFlushes (flushStats s) + 1"
    by (simp add: flushConsole_writes [OF w r])
qed

theorem forced_flush_of_empty_source_witness:
  "files (flushConsoleLogsForTab goodDisk ''tabA'' True openedTab) =
     [(''/session/console_flushes/console_A_tabA_flush_1.json'',
       ConsoleFlushDoc
         \<lparr>docTimestamp = 2, docPageId = ''tabA'', docPageTitle = ''A'',
          docPageUrl = ''http://a.test/'', flushSequence = Some 1, totalEntries = 0,
          docEntriesByType = noEntries, docEntries = []\<rparr>)]
   \<and> orZero (totalConsoleLogsFlushed
               (flushStats (flushConsoleLogsForTab goodDisk ''tabA'' True openedTab)) ''tabA'') = 0
   \<and> flushConsoleLogsForTab goodDisk ''tabB'' True openedTab = openedTab"
  using forced_flush_of_empty_source [of openedTab "''tabA''" goodDisk
          "\<lparr>pageTitle = ''A'', pageUrl = ''http://a.test/'', logs = [], lastActivity = 0,
            flushFiles = None\<rparr>"]
        forced_flush_of_empty_source [of openedTab "''tabB''" goodDisk]
        openedTab_flush_writes
  by (simp add: openedTab_consoleLogs openedTab_rest consoleFlushPath_A orZero_def
        toLocaleTimeString_def goodDisk_def)

lemma errorsAndWarnings_fields:
  "consoleLogs errorsAndWarnings = [(''tabB'', tabBLogs)]
   \<and> sessionDir errorsAndWarnings = Some ''/session'' \<and> files errorsAndWarnings = []
   \<and> totalConsoleLogsFlushed (flushStats errorsAndWarnings) = Map.empty
   \<and> clockReads errorsAndWarnings = 0"
  by (simp add: errorsAndWarnings_def initialState_def)

lemma consoleFlushPath_B:
  "consoleFlushPath ''/session'' tabBLogs ''tabB'' 0 =
     ''/session/console_flushes/console_B_tabB_flush_1.json''"
  by (simp add: consoleFlushPath_def path_join_def safeTitleOf_def alnumChar_def tabBLogs_def
        string_of_nat_1)

lemma errorsAndWarnings_flush_writes: "consoleFlushWrites goodDisk ''tabB'' True errorsAndWarnings"
  by (simp add: consoleFlushWrites_def errorsAndWarnings_fields sessionDirSet_def goodDisk_def)

text \<open>
  Claim C10. A console flush that writes its document resets only the \<open>logs\<close> of the
  tab's record and appends the path of the new flush file to its \<open>flushFiles\<close> (an
  absent list counting as empty): \<open>pageTitle\<close>, \<open>pageUrl\<close> and \<open>lastActivity\<close> of the
  record are as before, and the records of the other tabs are untouched.
\<close>

theorem console_flush_frame:
  assumes "consoleFlushWrites env t f s" and "map_of (consoleLogs s) t = Some rec"
  shows "map_of (consoleLogs (flushConsoleLogsForTab env t f s)) t =
           Some (rec\<lparr>logs := [],
                     flushFiles :=
                       Some ((case flushFiles rec of None \<Rightarrow> [] | Some fs \<Rightarrow> fs)
                             @ [fst (last (files (flushConsoleLogsForTab env t f s)))])\<rparr>)
       \<and> pageTitle (the (map_of (consoleLogs (flushConsoleLogsForTab env t f s)) t)) = pageTitle rec
       \<and> pageUrl (the (map_of (consoleLogs (flushConsoleLogsForTab env t f s)) t)) = pageUrl rec
       \<and> lastActivity (the (map_of (consoleLogs (flushConsoleLogsForTab env t f s)) t)) =
           lastActivity rec
       \<and> (\<forall>t'. t' \<noteq> t \<longrightarrow>
             map_of (consoleLogs (flushConsoleLogsForTab env t f s)) t' = map_of (consoleLogs s) t')"
  by (simp add: flushConsole_writes [OF assms] update_conv')

theorem console_flush_frame_witness:
  "map_of (consoleLogs (flushConsoleLogsForTab goodDisk ''tabB'' True errorsAndWarnings)) ''tabB'' =
     Some \<lparr>pageTitle = ''B'', pageUrl = ''http://b.test/'', logs = [], lastActivity = 7,
           flushFiles = Some [''/session/console_flushes/console_B_tabB_flush_1.json'']\<rparr>"
proof -
  have r: "map_of (consoleLogs errorsAndWarnings) ''tabB'' = Some tabBLogs"
    by (simp add: errorsAndWarnings_fields)
  have p: "fst (last (files (flushConsoleLogsForTab goodDisk ''tabB'' True errorsAndWarnings))) =
             ''/session/console_flushes/console_B_tabB_flush_1.json''"
    by (simp add: flushConsole_writes [OF errorsAndWarnings_flush_writes r]
          errorsAndWarnings_fields consoleFlushPath_B orZero_def)
  show ?thesis
    using console_flush_frame [OF errorsAndWarnings_flush_writes r]
    by (simp add: p tabBLogs_def)
qed

section \<open>The count by type\<close>

lemma countEntries_foldl:
  "foldl (\<lambda>c e. countType c (logType e)) c0 ls =
     \<lparr>log = log c0 + length (filter (\<lambda>e. logType e = ''log'') ls),
      info = info c0 + length (filter (\<lambda>e. logType e = ''info'') ls),
      warning = warning c0 + length (filter (\<lambda>e. logType e = ''warning'') ls),
      error = error c0 + length (filter (\<lambda>e. logType e = ''error'') ls),
      debug = debug c0 + length (filter (\<lambda>e. logType e = ''debug'') ls),
      other = other c0 + length (filter (\<lambda>e. logType e \<notin> set [''log'', ''info'', ''warning'',
                                                   ''error'', ''debug'']) ls)\<rparr>"
  by (induction ls arbitrary: c0) (simp_all add: countType_def)

lemma saveTabLogs_writes:
  assumes "logs rec \<noteq> []" and "result (writeCompressedFile env p d) = Some q"
    and "p = path_join logsDir (''console_'' @ safeTitleOf (if pageTitle rec \<noteq> [] then pageTitle rec
                                     else ''Tab'' @ string_of_nat (index + 1))
                        @ ''_'' @ take 6 pageId @ ''.json'')"
    and "d = ConsoleTabDoc
              \<lparr>docTimestamp = toLocaleTimeString (clock env (clockReads s)), docPageId = pageId,
               docPageTitle = pageTitle rec, docPageUrl = pageUrl rec,
               flushSequence = None, totalEntries = length (logs rec),
               docEntriesByType = countEntries (logs rec), docEntries = logs rec\<rparr>"
  shows "files (saveTabLogs env logsDir index (pageId, rec) s) = files s @ [(q, d)]"
  using assms by (simp add: saveTabLogs_def Date_now_def Let_def writeTo_def)

lemma onConsole_appends:
  assumes "map_of (consoleLogs s) (conPageId ev) = Some rec" and "conPageId ev \<noteq> []"
    and "conCurrent ev = None"
    and "length (logs rec) + 1 < maxLogsPerTabBeforeFlush MEMORY_CONFIG"
  shows "onConsole env ev s =
      s\<lparr>clockReads := Suc (Suc (clockReads s)),
        progressStats := (progressStats s)
                 \<lparr>consoleLogsCount := consoleLogsCount (progressStats s) + 1,
                  errorLogs := (if conType ev = ''error'' then errorLogs (progressStats s) + 1
                                else errorLogs (progressStats s)),
                  warningLogs := (if conType ev = ''warning'' then warningLogs (progressStats s) + 1
                                  else warningLogs (progressStats s))\<rparr>,
        consoleLogs := AList.update (conPageId ev)
           (rec\<lparr>lastActivity := clock env (Suc (clockReads s)),
                logs := logs rec @ [\<lparr>logTimestamp = toLocaleTimeString (clock env (clockReads s)),
                     logType = conType ev, logText = conText ev\<rparr>]\<rparr>) (consoleLogs s)\<rparr>"
  using assms
  by (simp add: onConsole_def refreshPageInfo_def Date_now_def Let_def)

lemma tabBHolds_say:
  assumes "tabBHolds s ts" and "length ts + 1 < 500"
  shows "tabBHolds (handle (fst (say t)) (snd (say t)) s) (ts @ [t])"
proof -
  from assms(1) obtain rec where r: "map_of (consoleLogs s) ''tabB'' = Some rec"
    and ts: "map logType (logs rec) = ts"
    and rest: "pageTitle rec = ''B''" "pageUrl rec = ''http://b.test/''"
      "sessionDir s = Some ''/session''" "files s = []"
      "totalConsoleLogsFlushed (flushStats s) = Map.empty"
    by (auto simp: tabBHolds_def)
  have l: "length (logs rec) = length ts" using ts by (metis length_map)
  let ?ev = "\<lparr>conPageId = ''tabB'', conType = t, conText = ''message'',
                 conTitle = ''B'', conUrl = ''http://b.test/'', conCurrent = None\<rparr>"
  have "onConsole goodDisk ?ev s = s\<lparr>clockReads := Suc (Suc (clockReads s)),
        progressStats := (progressStats s)
                 \<lparr>consoleLogsCount := consoleLogsCount (progressStats s) + 1,
                  errorLogs := (if conType ?ev = ''error'' then errorLogs (progressStats s) + 1
                                else errorLogs (progressStats s)),
                  warningLogs := (if conType ?ev = ''warning'' then warningLogs (progressStats s) + 1
                                  else warningLogs (progressStats s))\<rparr>,
        consoleLogs := AList.update (conPageId ?ev)
           (rec\<lparr>lastActivity := clock goodDisk (Suc (clockReads s)),
                logs := logs rec @ [\<lparr>logTimestamp = toLocaleTimeString (clock goodDisk (clockReads s)),
                     logType = conType ?ev, logText = conText ?ev\<rparr>]\<rparr>) (consoleLogs s)\<rparr>"
    using r l assms(2) by (intro onConsole_appends) (simp_all add: MEMORY_CONFIG_def)
  then show ?thesis
    using ts rest by (simp add: say_def tabBHolds_def update_conv')
qed

lemma tabBHolds_start:
  "tabBHolds (setupPage goodDisk ''tabB'' ''http://b.test/'' ''b.test'' ''B'' (initialState ''/session'')) []"
  by (simp add: tabBHolds_def setupPage_def initialState_def trackTabBaseUrl_def Date_now_def
        Let_def initTabNetworkEvents_def)

lemma tabBHolds_run:
  "tabBHolds s ts \<Longrightarrow> length ts + length us < 500 \<Longrightarrow>
   tabBHolds (run (map say us) s) (ts @ us)"
proof (induction us arbitrary: s ts)
  case Nil
  then show ?case by simp
next
  case (Cons u us)
  have "tabBHolds (handle (fst (say u)) (snd (say u)) s) (ts @ [u])"
    using Cons.prems by (intro tabBHolds_say) simp_all
  from Cons.IH [OF this] Cons.prems(2) show ?case by simp
qed

lemma fiveMessages_holds:
  "tabBHolds fiveMessages [''error'', ''warning'', ''error'', ''warning'', ''error'']"
  using tabBHolds_run [OF tabBHolds_start,
          of "[''error'', ''warning'', ''error'', ''warning'', ''error'']"]
  by (simp add: fiveMessages_def)

lemma countEntries_types:
  "countEntries ls = foldl countType noEntries (map logType ls)"
  by (simp add: countEntries_def foldl_map)

lemma fiveMessages_flush:
  "map (\<lambda>pd. case snd pd of
                ConsoleFlushDoc d \<Rightarrow> Some (totalEntries d, docEntriesByType d)
              | _ \<Rightarrow> None)
     (files (flushConsoleLogsForTab goodDisk ''tabB'' True fiveMessages)) =
   [Some (5, \<lparr>log = 0, info = 0, warning = 2, error = 3, debug = 0, other = 0\<rparr>)]"
proof -
  from fiveMessages_holds obtain rec where
    r: "map_of (consoleLogs fiveMessages) ''tabB'' = Some rec"
    and ts: "map logType (logs rec) = [''error'', ''warning'', ''error'', ''warning'', ''error'']"
    and d: "sessionDir fiveMessages = Some ''/session''" and f: "files fiveMessages = []"
    by (auto simp: tabBHolds_def)
  have w: "consoleFlushWrites goodDisk ''tabB'' True fiveMessages"
    using r d by (simp add: consoleFlushWrites_def sessionDirSet_def goodDisk_def)
  have "length (map logType (logs rec)) = 5" by (simp add: ts)
  then have l: "length (logs rec) = 5" by simp
  have c: "countEntries (logs rec) =
             \<lparr>log = 0, info = 0, warning = 2, error = 3, debug = 0, other = 0\<rparr>"
    by (simp add: countEntries_types ts countType_def noEntries_def)
  show ?thesis by (simp add: flushConsole_writes [OF w r] f l c)
qed

text \<open>
  Claim C9. The count by type has exactly the six keys \<open>log\<close>, \<open>info\<close>, \<open>warning\<close>,
  \<open>error\<close>, \<open>debug\<close> and \<open>other\<close>: each of the five known types is counted under its own
  key and every other type under \<open>other\<close>. The document a console flush writes and the
  document the final save writes for a tab both carry the number of records as
  \<open>totalEntries\<close> and this count as \<open>entriesByType\<close>. After a tab has
  logged three messages of type \<open>error\<close> and two of type \<open>warning\<close>, a forced flush
  writes one document with 5 entries and the counts 0, 0, 2, 3, 0, 0.
\<close>

theorem console_breakdown:
  "countEntries ls =
     \<lparr>log = length (filter (\<lambda>e. logType e = ''log'') ls),
      info = length (filter (\<lambda>e. logType e = ''info'') ls),
      warning = length (filter (\<lambda>e. logType e = ''warning'') ls),
      error = length (filter (\<lambda>e. logType e = ''error'') ls),
      debug = length (filter (\<lambda>e. logType e = ''debug'') ls),
      other = length (filter (\<lambda>e. logType e \<notin> set [''log'', ''info'', ''warning'',
                                         ''error'', ''debug'']) ls)\<rparr>
   \<and> (consoleFlushWrites env t f s \<and> map_of (consoleLogs s) t = Some rec \<longrightarrow>
        (\<exists>p stamp n.
           files (flushConsoleLogsForTab env t f s) =
             files s @
             [(p, ConsoleFlushDoc
                    \<lparr>docTimestamp = stamp, docPageId = t, docPageTitle = pageTitle rec,
                     docPageUrl = pageUrl rec, flushSequence = Some n,
                     totalEntries = length (logs rec),
                     docEntriesByType = countEntries (logs rec), docEntries = logs rec\<rparr>)]))
   \<and> (logs rec \<noteq> [] \<and> result (writeCompressedFile env
          (path_join logsDir (''console_'' @ safeTitleOf (if pageTitle rec \<noteq> [] then pageTitle rec
                                     else ''Tab'' @ string_of_nat (index + 1))
                        @ ''_'' @ take 6 t @ ''.json''))
          (ConsoleTabDoc
              \<lparr>docTimestamp = toLocaleTimeString (clock env (clockReads s)), docPageId = t,
               docPageTitle = pageTitle rec, docPageUrl = pageUrl rec,
               flushSequence = None, totalEntries = length (logs rec),
               docEntriesByType = countEntries (logs rec), docEntries = logs rec\<rparr>)) = Some q \<longrightarrow>
        files (saveTabLogs env logsDir index (t, rec) s) =
          files s @
          [(q, ConsoleTabDoc
              \<lparr>docTimestamp = toLocaleTimeString (clock env (clockReads s)), docPageId = t,
               docPageTitle = pageTitle rec, docPageUrl = pageUrl rec,
               flushSequence = None, totalEntries = length (logs rec),
               docEntriesByType = countEntries (logs rec), docEntries = logs rec\<rparr>)])
   \<and> map (\<lambda>pd. case snd pd of
                ConsoleFlushDoc d \<Rightarrow> Some (totalEntries d, docEntriesByType d)
              | _ \<Rightarrow> None)
       (files (flushConsoleLogsForTab goodDisk ''tabB'' True fiveMessages)) =
       [Some (5, \<lparr>log = 0, info = 0, warning = 2, error = 3, debug = 0, other = 0\<rparr>)]"
proof (intro conjI impI)
  show "countEntries ls =
     \<lparr>log = length (filter (\<lambda>e. logType e = ''log'') ls),
      info = length (filter (\<lambda>e. logType e = ''info'') ls),
      warning = length (filter (\<lambda>e. logType e = ''warning'') ls),
      error = length (filter (\<lambda>e. logType e = ''error'') ls),
      debug = length (filter (\<lambda>e. logType e = ''debug'') ls),
      other = length (filter (\<lambda>e. logType e \<notin> set [''log'', ''info'', ''warning'',
                                         ''error'', ''debug'']) ls)\<rparr>"
    by (simp add: countEntries_def countEntries_foldl noEntries_def)
next
  assume "consoleFlushWrites env t f s \<and> map_of (consoleLogs s) t = Some rec"
  then have w: "consoleFlushWrites env t f s" and r: "map_of (consoleLogs s) t = Some rec"
    by simp_all
  show "\<exists>p stamp n.
           files (flushConsoleLogsForTab env t f s) =
             files s @
             [(p, ConsoleFlushDoc
                    \<lparr>docTimestamp = stamp, docPageId = t, docPageTitle = pageTitle rec,
                     docPageUrl = pageUrl rec, flushSequence = Some n,
                     totalEntries = length (logs rec),
                     docEntriesByType = countEntries (logs rec), docEntries = logs rec\<rparr>)]"
    by (simp add: flushConsole_writes [OF w r])
next
  assume a: "logs rec \<noteq> [] \<and> result (writeCompressedFile env
          (path_join logsDir (''console_'' @ safeTitleOf (if pageTitle rec \<noteq> [] then pageTitle rec
                                     else ''Tab'' @ string_of_nat (index + 1))
                        @ ''_'' @ take 6 t @ ''.json''))
          (ConsoleTabDoc
              \<lparr>docTimestamp = toLocaleTimeString (clock env (clockReads s)), docPageId = t,
               docPageTitle = pageTitle rec, docPageUrl = pageUrl rec,
               flushSequence = None, totalEntries = length (logs rec),
               docEntriesByType = countEntries (logs rec), docEntries = logs rec\<rparr>)) = Some q"
  show "files (saveTabLogs env logsDir index (t, rec) s) =
          files s @
          [(q, ConsoleTabDoc
              \<lparr>docTimestamp = toLocaleTimeString (clock env (clockReads s)), docPageId = t,
               docPageTitle = pageTitle rec, docPageUrl = pageUrl rec,
               flushSequence = None, totalEntries = length (logs rec),
               docEntriesByType = countEntries (logs rec), docEntries = logs rec\<rparr>)]"
    by (rule saveTabLogs_writes [OF conjunct1 [OF a] conjunct2 [OF a] refl refl])
next
  show "map (\<lambda>pd. case snd pd of
                ConsoleFlushDoc d \<Rightarrow> Some (totalEntries d, docEntriesByType d)
              | _ \<Rightarrow> None)
       (files (flushConsoleLogsForTab goodDisk ''tabB'' True fiveMessages)) =
       [Some (5, \<lparr>log = 0, info = 0, warning = 2, error = 3, debug = 0, other = 0\<rparr>)]"
    by (rule fiveMessages_flush)
qed

theorem console_breakdown_witness:
  "countEntries [consoleMessage ''log'', consoleMessage ''pageerror'', consoleMessage ''other'',
                 consoleMessage ''debug'', consoleMessage ''dir''] =
     \<lparr>log = 1, info = 0, warning = 0, error = 0, debug = 1, other = 3\<rparr>
   \<and> map (\<lambda>pd. case snd pd of ConsoleFlushDoc d \<Rightarrow> totalEntries d | _ \<Rightarrow> 0)
        (files (flushConsoleLogsForTab goodDisk ''tabB'' True errorsAndWarnings)) = [5]"
proof -
  have r: "map_of (consoleLogs errorsAndWarnings) ''tabB'' = Some tabBLogs"
    by (simp add: errorsAndWarnings_fields)
  note t = console_breakdown [of "[consoleMessage ''log'', consoleMessage ''pageerror'',
            consoleMessage ''other'', consoleMessage ''debug'', consoleMessage ''dir'']"
          goodDisk "''tabB''" True errorsAndWarnings tabBLogs]
  from t have a: "countEntries [consoleMessage ''log'', consoleMessage ''pageerror'',
            consoleMessage ''other'', consoleMessage ''debug'', consoleMessage ''dir''] =
     \<lparr>log = 1, info = 0, warning = 0, error = 0, debug = 1, other = 3\<rparr>"
    by (simp add: consoleMessage_def)
  from t errorsAndWarnings_flush_writes r obtain p stamp n where
    "files (flushConsoleLogsForTab goodDisk ''tabB'' True errorsAndWarnings) =
       files errorsAndWarnings @
       [(p, ConsoleFlushDoc
              \<lparr>docTimestamp = stamp, docPageId = ''tabB'', docPageTitle = pageTitle tabBLogs,
               docPageUrl = pageUrl tabBLogs, flushSequence = Some n,
               totalEntries = length (logs tabBLogs),
               docEntriesByType = countEntries (logs tabBLogs), docEntries = logs tabBLogs\<rparr>)]"
    by blast
  then have "map (\<lambda>pd. case snd pd of ConsoleFlushDoc d \<Rightarrow> totalEntries d | _ \<Rightarrow> 0)
        (files (flushConsoleLogsForTab goodDisk ''tabB'' True errorsAndWarnings)) = [5]"
    by (simp add: errorsAndWarnings_fields tabBLogs_def)
  with a show ?thesis by simp
qed

section \<open>Responses and the pending index\<close>

lemma onResponse_unmatched:
  "lookupEntry s (respPageId ev) (respUrl ev) = Undefined \<Longrightarrow> onResponse env ev s = s"
  by (simp add: onResponse_def split: option.splits)







section \<open>The proportional sample\<close>


lemma tabSampleSize_le: "tabSampleSize len n \<le> len"
  by (simp add: tabSampleSize_def)




section \<open>The order of the final writes\<close>


lemma appendsData_same: "files s' = files s \<Longrightarrow> appendsData s s'"
  by (simp add: appendsData_def)








lemma appendsData_Date_now: "appendsData s (snd (Date_now env s))"
  by (simp add: Date_now_def appendsData_same)





lemma sessionDir_fold:
  assumes "\<And>x s. sessionDir (f x s) = sessionDir s"
  shows "sessionDir (fold f xs s) = sessionDir s"
  using assms by (induction xs arbitrary: s) simp_all

lemma sessionDir_writeTo [simp]: "sessionDir (writeTo env p d s) = sessionDir s"
  by (simp add: writeTo_def split: option.splits)

lemma sessionDir_flushConsole [simp]:
  "sessionDir (flushConsoleLogsForTab env t f s) = sessionDir s"
  by (simp add: flushConsoleLogsForTab_def Date_now_def Let_def split: option.splits)

lemma sessionDir_performMemoryCheck [simp]:
  "sessionDir (performMemoryCheck env force s) = sessionDir s"
proof -
  have a: "\<And>x s. sessionDir (checkNetworkTab env force x s) = sessionDir s"
    by (simp add: checkNetworkTab_def flushNetworkEventsForTab_unchanged split: option.splits)
  have b: "\<And>x s. sessionDir (checkConsoleTab env force x s) = sessionDir s"
    by (simp add: checkConsoleTab_def split: option.splits)
  show ?thesis
    by (simp add: performMemoryCheck_def Let_def sessionDir_fold [OF a] sessionDir_fold [OF b])
qed

lemma sessionDir_saveFinalHarFiles [simp]:
  "sessionDir (saveFinalHarFiles env s) = sessionDir s"
proof -
  have a: "\<And>d x s. sessionDir (saveTabHar env d x s) = sessionDir s"
    by (simp add: saveTabHar_def Let_def)
  show ?thesis
    by (simp add: saveFinalHarFiles_def Let_def sessionDir_fold [OF a] split: option.splits)
qed

lemma sessionDir_saveEachTabLogs [simp]:
  "sessionDir (saveEachTabLogs env d i pts s) = sessionDir s"
  by (induction pts arbitrary: i s) (simp_all add: saveTabLogs_def Date_now_def Let_def)

lemma sessionDir_saveAllConsoleLogs [simp]:
  "sessionDir (saveAllConsoleLogs env d pts s) = sessionDir s"
  by (simp add: saveAllConsoleLogs_def Date_now_def Let_def)








section \<open>Further properties of the network path\<close>

text \<open>
  A network flush never changes the state, never writes a file and never advances a
  count, whatever the buffer holds, whether forced or not, and whatever the disk does.
\<close>

theorem network_flush_never_writes:
  "flushNetworkEventsForTab env tabId forceSave s = s
   \<and> files (flushNetworkEventsForTab env tabId forceSave s) = files s
   \<and> flushStats (flushNetworkEventsForTab env tabId forceSave s) = flushStats s
   \<and> networkEvents (flushNetworkEventsForTab env tabId forceSave s) = networkEvents s"
  by (simp add: flushNetworkEventsForTab_unchanged)

theorem network_flush_never_writes_witness:
  "flushNetworkEventsForTab goodDisk ''tabA'' True fullBufferState = fullBufferState"
  using network_flush_never_writes [of goodDisk "''tabA''" True fullBufferState] by simp

text \<open>
  The per-tab final archive of a tab whose buffer is a \<open>BoundedArray\<close> holding items has
  no entries: \<open>createHarFile\<close> is given the buffer, which is not an array, and uses the
  empty array (lines 908-912, 1259).
\<close>

theorem final_archive_of_bounded_buffer_is_empty:
  assumes "array b \<noteq> []"
    and "writeFileOk env (path_join harDir (getCleanFilenameFromUrl (baseUrlOf s tabId) tabId @ ''.har''))"
  shows "files (saveTabHar env harDir (tabId, Bounded b) s) =
           files s @
           [(path_join harDir (getCleanFilenameFromUrl (baseUrlOf s tabId) tabId @ ''.har''),
             HarDoc [harPageOf (tabInfoOf env s tabId)] [])]"
  using assms
  by (simp add: saveTabHar_def Let_def BoundedArray_length_def createHarFile_def writeTo_def
        writeCompressedFile_def)

theorem final_archive_of_bounded_buffer_is_empty_witness:
  "map (\<lambda>pd. case snd pd of HarDoc ps es \<Rightarrow> length es | _ \<Rightarrow> 7)
     (files (saveTabHar goodDisk ''/session/final_har_files''
               (''tabA'', Bounded \<lparr>maxSize = 6000, array = [0..<5000], overflowed = False\<rparr>)
               fullBufferState)) = [0]"
proof -
  have a: "array \<lparr>maxSize = 6000, array = [0..<5000], overflowed = False\<rparr> \<noteq> []"
    by simp
  have w: "writeFileOk goodDisk p" for p by (simp add: goodDisk_def)
  have f: "files fullBufferState = []" by (simp add: fullBufferState_def initialState_def)
  show ?thesis
    using final_archive_of_bounded_buffer_is_empty [OF a w,
            where harDir = "''/session/final_har_files''" and s = fullBufferState
              and tabId = "''tabA''"] f
    by simp
qed

text \<open>
  In a session the URL maps never hold an entry object: the value the request handler
  stores, \<open>tabEvents[tabEvents.length - 1]\<close>, is \<open>undefined\<close> for a \<open>BoundedArray\<close>.
\<close>

lemma requestUrlMaps_fold:
  assumes "\<And>x s. requestUrlMaps (f x s) = requestUrlMaps s"
  shows "requestUrlMaps (fold f xs s) = requestUrlMaps s"
  using assms by (induction xs arbitrary: s) simp_all

lemma requestUrlMaps_writeTo [simp]: "requestUrlMaps (writeTo env p d s) = requestUrlMaps s"
  by (simp add: writeTo_def split: option.splits)

lemma requestUrlMaps_flushConsole [simp]:
  "requestUrlMaps (flushConsoleLogsForTab env tabId forceSave s) = requestUrlMaps s"
  by (simp add: flushConsoleLogsForTab_def Date_now_def Let_def split: option.splits)

lemma requestUrlMaps_performMemoryCheck [simp]:
  "requestUrlMaps (performMemoryCheck env force s) = requestUrlMaps s"
proof -
  have a: "\<And>x s. requestUrlMaps (checkNetworkTab env force x s) = requestUrlMaps s"
    by (simp add: checkNetworkTab_def flushNetworkEventsForTab_unchanged split: option.splits)
  have b: "\<And>x s. requestUrlMaps (checkConsoleTab env force x s) = requestUrlMaps s"
    by (simp add: checkConsoleTab_def split: option.splits)
  show ?thesis
    by (simp add: performMemoryCheck_def Let_def requestUrlMaps_fold [OF a]
          requestUrlMaps_fold [OF b])
qed

lemma requestUrlMaps_saveFinalHarFiles [simp]:
  "requestUrlMaps (saveFinalHarFiles env s) = requestUrlMaps s"
proof -
  have a: "\<And>d x s. requestUrlMaps (saveTabHar env d x s) = requestUrlMaps s"
    by (simp add: saveTabHar_def Let_def)
  show ?thesis
    by (simp add: saveFinalHarFiles_def Let_def requestUrlMaps_fold [OF a] split: option.splits)
qed

lemma requestUrlMaps_saveEachTabLogs [simp]:
  "requestUrlMaps (saveEachTabLogs env d i pts s) = requestUrlMaps s"
  by (induction pts arbitrary: i s) (simp_all add: saveTabLogs_def Date_now_def Let_def)

lemma requestUrlMaps_saveAllConsoleLogs [simp]:
  "requestUrlMaps (saveAllConsoleLogs env d pts s) = requestUrlMaps s"
  by (simp add: saveAllConsoleLogs_def Date_now_def Let_def)

lemma requestUrlMaps_onDisconnected [simp]:
  "requestUrlMaps (onDisconnected env s) = requestUrlMaps s"
  by (simp add: onDisconnected_def writeSummary_def ensureSessionDir_def Date_now_def Let_def)

lemma requestUrlMaps_autoSave [simp]: "requestUrlMaps (autoSave env s) = requestUrlMaps s"
proof -
  have a: "\<And>x s. requestUrlMaps (nearThresholdTab env x s) = requestUrlMaps s"
    by (simp add: nearThresholdTab_def flushNetworkEventsForTab_unchanged split: option.splits)
  show ?thesis
    by (simp add: autoSave_def Date_now_def Let_def requestUrlMaps_fold [OF a]
             split: sum.splits)
qed

lemma requestUrlMaps_onConsole [simp]: "requestUrlMaps (onConsole env ev s) = requestUrlMaps s"
  by (simp add: onConsole_def refreshPageInfo_def Date_now_def Let_def
           split: option.splits prod.splits)

lemma requestUrlMaps_onPageError [simp]:
  "requestUrlMaps (onPageError env p t u m s) = requestUrlMaps s"
  by (simp add: onPageError_def Date_now_def Let_def)

lemma requestUrlMaps_setupPage [simp]:
  "requestUrlMaps (setupPage env p u h t s) = requestUrlMaps s"
  by (simp add: setupPage_def trackTabBaseUrl_def initTabNetworkEvents_def Date_now_def Let_def
        split: option.splits)

lemma noPending_onResponse: "noPending s \<Longrightarrow> onResponse env ev s = s"
  by (simp add: noPending_def onResponse_unmatched)

lemma buffer_last_bounded: "bufferBounded b \<Longrightarrow> buffer_last (buffer_push a b) = Undefined"
  by (cases b) (simp_all add: bufferBounded_def)

lemma requestUrlMaps_initTab [simp]:
  "requestUrlMaps (initTabNetworkEvents tabId s) = requestUrlMaps s"
  by (simp add: initTabNetworkEvents_def split: option.splits)

lemma requestUrlMaps_trackTabBaseUrl [simp]:
  "requestUrlMaps (trackTabBaseUrl tabId u b s) = requestUrlMaps s"
  by (simp add: trackTabBaseUrl_def Let_def)

lemma requestUrlMaps_onRequest_raw:
  "\<exists>a. requestUrlMaps (onRequest env ev s) =
     (requestUrlMaps s)
       (reqPageId ev \<mapsto>
          (case requestUrlMaps s (reqPageId ev) of None \<Rightarrow> Map.empty | Some m0 \<Rightarrow> m0)
          (reqUrl ev \<mapsto>
             buffer_last
               (buffer_push a
                  (the (map_of
                     (case map_of (networkEvents s) (reqPageId ev) of
                        None \<Rightarrow> AList.update (reqPageId ev)
                                  (Bounded (BoundedArray_new networkCapacity)) (networkEvents s)
                      | Some b \<Rightarrow> networkEvents s)
                     (reqPageId ev))))))"
proof (cases "reqFrame ev")
  case None
  then show ?thesis
    by (simp add: onRequest_def Let_def Date_now_def flushNetworkEventsForTab_unchanged
          networkEvents_initTab split: option.splits) blast
next
  case (Some uh)
  then show ?thesis
    by (cases uh)
       (simp add: onRequest_def Let_def Date_now_def flushNetworkEventsForTab_unchanged
          networkEvents_initTab split: option.splits, blast)
qed

lemma requestUrlMaps_onRequest:
  assumes "allBounded s"
  shows "requestUrlMaps (onRequest env ev s) =
           (requestUrlMaps s)
             (reqPageId ev \<mapsto>
                (case requestUrlMaps s (reqPageId ev) of None \<Rightarrow> Map.empty | Some m0 \<Rightarrow> m0)
                (reqUrl ev \<mapsto> Undefined))"
proof -
  have new: "bufferBounded (Bounded (BoundedArray_new networkCapacity))"
    by (simp add: bufferBounded_def BoundedArray_new_def)
  have "bufferBounded
          (the (map_of
             (case map_of (networkEvents s) (reqPageId ev) of
                None \<Rightarrow> AList.update (reqPageId ev)
                          (Bounded (BoundedArray_new networkCapacity)) (networkEvents s)
              | Some b \<Rightarrow> networkEvents s)
             (reqPageId ev)))"
  proof (cases "map_of (networkEvents s) (reqPageId ev)")
    case None
    then show ?thesis using new by (simp add: update_conv')
  next
    case (Some b)
    have "bufferBounded b"
      using assms Some unfolding allBounded_def by (rule list_all_map_of)
    then show ?thesis using Some by simp
  qed
  then have "\<And>a. buffer_last
               (buffer_push a
                  (the (map_of
                     (case map_of (networkEvents s) (reqPageId ev) of
                        None \<Rightarrow> AList.update (reqPageId ev)
                                  (Bounded (BoundedArray_new networkCapacity)) (networkEvents s)
                      | Some b \<Rightarrow> networkEvents s)
                     (reqPageId ev)))) = Undefined"
    by (rule buffer_last_bounded)
  then show ?thesis using requestUrlMaps_onRequest_raw [of env ev s] by auto
qed

lemma noPending_onRequest:
  assumes "allBounded s" and "noPending s"
  shows "noPending (onRequest env ev s)"
proof -
  note r = requestUrlMaps_onRequest [OF assms(1), of env ev]
  show ?thesis
    unfolding noPending_def
  proof (intro allI)
    fix t u
    have old: "lookupEntry s t u = Undefined" using assms(2) by (simp add: noPending_def)
    show "lookupEntry (onRequest env ev s) t u = Undefined"
      using old by (auto simp: lookupEntry_def r split: option.splits if_splits)
  qed
qed

lemma noPending_cong: "requestUrlMaps s' = requestUrlMaps s \<Longrightarrow> noPending s \<Longrightarrow> noPending s'"
  by (simp add: noPending_def lookupEntry_def)

lemma noPending_handle:
  assumes "allBounded s" and "noPending s"
  shows "noPending (handle env e s)"
proof (cases e)
  case (Request ev)
  then show ?thesis using assms by (simp add: noPending_onRequest)
next
  case (Response ev)
  then show ?thesis using assms by (simp add: noPending_onResponse)
qed (use assms in \<open>auto intro: noPending_cong\<close>)

lemma noPending_run:
  "allBounded s \<Longrightarrow> noPending s \<Longrightarrow> noPending (run steps s)"
  by (induction steps arbitrary: s) (simp_all add: noPending_handle allBounded_handle)

lemma noPending_initialState: "noPending (initialState dir)"
  by (simp add: noPending_def lookupEntry_def initialState_def)

theorem responses_never_match:
  "lookupEntry (run steps (initialState dir)) t u = Undefined
   \<and> onResponse env ev (run steps (initialState dir)) = run steps (initialState dir)"
proof -
  have n: "noPending (run steps (initialState dir))"
    by (rule noPending_run [OF allBounded_initialState noPending_initialState])
  then show ?thesis by (simp add: noPending_onResponse) (simp add: noPending_def)
qed

theorem responses_never_match_witness:
  "onResponse goodDisk answer
     (run [(goodDisk, PageSetup ''tabA'' ''http://a.test/'' ''a.test'' ''A''),
           (goodDisk, Request exampleRequest)] (initialState ''/session''))
   = run [(goodDisk, PageSetup ''tabA'' ''http://a.test/'' ''a.test'' ''A''),
          (goodDisk, Request exampleRequest)] (initialState ''/session'')"
  using responses_never_match [of "[(goodDisk, PageSetup ''tabA'' ''http://a.test/'' ''a.test'' ''A''),
           (goodDisk, Request exampleRequest)]" "''/session''" "''tabA''" "''http://a.test/x''"
           goodDisk answer]
  by blast

text \<open>
  In a session the sample of the periodic save is never filled: either every share is 0
  and the sample is empty, or taking the first positive share raises TypeError.
\<close>

lemma sampleTabs_bounded:
  "list_all (\<lambda>tb. bufferBounded (snd tb)) tbs \<Longrightarrow>
   sampleTabs n tbs acc = Inr acc \<or> sampleTabs n tbs acc = Inl TypeError"
proof (induction tbs arbitrary: acc)
  case Nil
  show ?case by simp
next
  case (Cons tb tbs)
  then obtain b where b: "snd tb = Bounded b"
    by (cases "snd tb") (simp_all add: bufferBounded_def)
  from Cons have "sampleTabs n tbs acc = Inr acc \<or> sampleTabs n tbs acc = Inl TypeError"
    by simp
  then show ?case by (auto simp: b Let_def)
qed

theorem session_sample_is_empty_or_fails:
  "allEventsSample (run steps (initialState dir)) = Inr []
   \<or> allEventsSample (run steps (initialState dir)) = Inl TypeError"
proof -
  have "allBounded (run steps (initialState dir))"
    by (rule allBounded_run [OF allBounded_initialState])
  then have "list_all (\<lambda>tb. bufferBounded (snd tb)) (networkEvents (run steps (initialState dir)))"
    by (simp add: allBounded_def)
  from sampleTabs_bounded [OF this, of "networkEventsCount (progressStats (run steps (initialState dir)))" "[]"]
  show ?thesis by (auto simp: allEventsSample_def sampleSize_def)
qed

theorem session_sample_is_empty_or_fails_witness:
  "allEventsSample (run [] (initialState ''/session'')) = Inr []"
  using session_sample_is_empty_or_fails [of "[]" "''/session''"]
  by (simp add: allEventsSample_def initialState_def)

end
